theory Spec2Isabelle
  imports Complex_Main
begin

section \<open>JavaScript strings and character classes\<close>

text \<open>
  A JavaScript string is a sequence of UTF-16 code units; \<open>length\<close>, \<open>substring\<close> and
  regular expressions without the \<open>u\<close> flag all count code units. A code unit is modelled
  as a natural number (every function below is defined on all of them), and \<open>js\<close> turns
  an ASCII literal into its code units.
\<close>

type_synonym jsstring = "nat list"

definition js :: "string \<Rightarrow> jsstring" where
  "js s = map of_char s"

definition isDigit :: "nat \<Rightarrow> bool" where
  "isDigit c = (48 \<le> c \<and> c \<le> 57)"

definition isUpper :: "nat \<Rightarrow> bool" where
  "isUpper c = (65 \<le> c \<and> c \<le> 90)"

definition isLower :: "nat \<Rightarrow> bool" where
  "isLower c = (97 \<le> c \<and> c \<le> 122)"

text \<open>The class \<open>[a-z0-9]\<close> under the \<open>i\<close> flag, that is \<open>[A-Za-z0-9]\<close>.\<close>

definition isAlnum :: "nat \<Rightarrow> bool" where
  "isAlnum c = (isLower c \<or> isUpper c \<or> isDigit c)"

text \<open>The class \<open>\w\<close>: \<open>[A-Za-z0-9_]\<close>.\<close>

definition isWord :: "nat \<Rightarrow> bool" where
  "isWord c = (isAlnum c \<or> c = 95)"

text \<open>
  The class \<open>\s\<close> of ECMAScript: tab, line feed, vertical tab, form feed, carriage
  return, space, no-break space, U+1680, U+2000 to U+200A, the line and paragraph
  separators, U+202F, U+205F, U+3000 and the byte order mark.
\<close>

definition isSpace :: "nat \<Rightarrow> bool" where
  "isSpace c = ((9 \<le> c \<and> c \<le> 13) \<or> c = 32 \<or> c = 160 \<or> c = 5760
      \<or> (8192 \<le> c \<and> c \<le> 8202) \<or> c = 8232 \<or> c = 8233 \<or> c = 8239
      \<or> c = 8287 \<or> c = 12288 \<or> c = 65279)"

text \<open>The class \<open>[a-zA-Z0-9_-]\<close> of the identifier pattern.\<close>

definition isIdChar :: "nat \<Rightarrow> bool" where
  "isIdChar c = (isLower c \<or> isUpper c \<or> isDigit c \<or> c = 95 \<or> c = 45)"

text \<open>The class \<open>[^\w\s-]\<close> is the complement of \<open>keepChar\<close>; \<open>[-\s]\<close> is \<open>isSep\<close>.\<close>

definition keepChar :: "nat \<Rightarrow> bool" where
  "keepChar c = (isWord c \<or> isSpace c \<or> c = 45)"

definition isSep :: "nat \<Rightarrow> bool" where
  "isSep c = (c = 45 \<or> isSpace c)"

text \<open>
  \<open>toLowerCase\<close> on the letters \<open>A\<close> to \<open>Z\<close>. Both call sites apply it to a string
  that holds only characters of \<open>[A-Za-z0-9_]\<close> (lemmas \<open>collapseRuns_word\<close> and
  \<open>replaceNonAlnum_word\<close>), where the Unicode case mapping is this one.
\<close>

definition toLowerChar :: "nat \<Rightarrow> nat" where
  "toLowerChar c = (if isUpper c then c + 32 else c)"

definition toLowerCase :: "jsstring \<Rightarrow> jsstring" where
  "toLowerCase s = map toLowerChar s"

section \<open>Identifier validation\<close>

text \<open>
  \<^verbatim>\<open>function validateVideoId(videoId) { return /^[a-zA-Z0-9_-]{11}$/.test(videoId); }\<close>
  Without the \<open>m\<close> flag, \<open>^\<close> and \<open>$\<close> match only at the two ends of the input.
  \<open>index.js\<close> writes the same test inline in its two download handlers.
\<close>

definition validateVideoId :: "jsstring \<Rightarrow> bool" where
  "validateVideoId videoId = (length videoId = 11 \<and> list_all isIdChar videoId)"

section \<open>Filename sanitization\<close>

text \<open>
  \<open>replace(/[-\s]+/g, '_')\<close>: scanning from the left, each maximal run of hyphens and
  whitespace is one match of the greedy pattern and is replaced by one underscore.
\<close>

function collapseRuns :: "jsstring \<Rightarrow> jsstring" where
  "collapseRuns [] = []"
| "collapseRuns (c # cs) =
     (if isSep c then 95 # collapseRuns (dropWhile isSep cs) else c # collapseRuns cs)"
  by pat_completeness auto
termination
  by (relation "measure length") (auto simp: length_dropWhile_le less_Suc_eq_le)

text \<open>
  The caching server (\<open>src/unnamed/part_000\<close>):
  \<^verbatim>\<open>filename.replace(/[^\w\s-]/g, '').replace(/[-\s]+/g, '_').toLowerCase().substring(0, 100)\<close>
\<close>

definition sanitizeFilename :: "jsstring \<Rightarrow> jsstring" where
  "sanitizeFilename filename =
     take 100 (toLowerCase (collapseRuns (filter keepChar filename)))"

text \<open>
  The basic server (\<open>src/index.js\<close>):
  \<^verbatim>\<open>filename.replace(/[^a-z0-9]/gi, '_').toLowerCase()\<close>
\<close>

definition replaceNonAlnum :: "jsstring \<Rightarrow> jsstring" where
  "replaceNonAlnum s = map (\<lambda>c. if isAlnum c then c else 95) s"

definition sanitizeFilename_index :: "jsstring \<Rightarrow> jsstring" where
  "sanitizeFilename_index filename = toLowerCase (replaceNonAlnum filename)"

section \<open>Resolved metadata\<close>

text \<open>
  The resolver (\<open>ytdl.getInfo\<close>) is an external library. Of what it returns, the model
  keeps the fields the handlers read. A number is \<open>NaN\<close>, an infinity or a finite value
  (the doubles are among the rationals); a number field is absent (\<open>undefined\<close>) when it
  is \<open>None\<close>. The kind of a format stands for what \<open>ytdl.filterFormats\<close> tests.
\<close>

datatype jsnumber = NaN | PosInfinity | NegInfinity | Num rat

datatype kind = AudioOnly | VideoOnly | Muxed

record format =
  itag :: nat
  kind :: kind
  container :: jsstring
  codecs :: jsstring
  audioBitrate :: "jsnumber option"
  audioSampleRate :: jsstring
  url :: jsstring

record videoDetails =
  title :: jsstring
  author_name :: jsstring
  lengthSeconds :: jsstring
  viewCount :: jsstring
  description :: "jsstring option"
  uploadDate :: jsstring
  category :: jsstring

record videoInfo =
  videoDetails :: videoDetails
  formats :: "format list"

definition filterFormats :: "format list \<Rightarrow> kind \<Rightarrow> format list" where
  "filterFormats fs k = filter (\<lambda>f. kind f = k) fs"

section \<open>Format selection\<close>

text \<open>
  \<open>parseInt(x)\<close> reads an integer from the text of \<open>x\<close>. The texts \<open>undefined\<close>,
  \<open>NaN\<close>, \<open>Infinity\<close> and \<open>-Infinity\<close> begin with no digit: the result is \<open>NaN\<close>
  (\<open>None\<close>). The text of a finite number is in decimal notation when the number is 0 or
  its magnitude is at least \<open>10^-6\<close> and below \<open>10^21\<close>; \<open>parseInt\<close> then reads the
  digits before the decimal point, which are the number cut off towards zero. Any other
  finite number is written with an exponent (\<open>1e+21\<close>, \<open>5e-7\<close>) and \<open>parseInt\<close> reads
  the one digit before the point or the \<open>e\<close>, with the sign. Which digit that is depends
  on the shortest decimal text of the double; it is the parameter \<open>lead\<close>.
\<close>

definition exponentText :: "rat \<Rightarrow> bool" where
  "exponentText q = (q \<noteq> 0 \<and> (\<bar>q\<bar> < 1 / 10 ^ 6 \<or> 10 ^ 21 \<le> \<bar>q\<bar>))"

definition towardZero :: "rat \<Rightarrow> int" where
  "towardZero q = (if 0 \<le> q then \<lfloor>q\<rfloor> else \<lceil>q\<rceil>)"

fun parseNumber :: "(rat \<Rightarrow> int) \<Rightarrow> jsnumber \<Rightarrow> int option" where
  "parseNumber lead NaN = None"
| "parseNumber lead PosInfinity = None"
| "parseNumber lead NegInfinity = None"
| "parseNumber lead (Num q) = Some (if exponentText q then lead q else towardZero q)"

definition parseInt :: "(rat \<Rightarrow> int) \<Rightarrow> jsnumber option \<Rightarrow> int option" where
  "parseInt lead x = (case x of None \<Rightarrow> None | Some n \<Rightarrow> parseNumber lead n)"

text \<open>\<open>v || 0\<close> on the result: \<open>NaN\<close> and \<open>0\<close> are the falsy ones.\<close>

definition orZero :: "int option \<Rightarrow> int" where
  "orZero v = (case v of None \<Rightarrow> 0 | Some n \<Rightarrow> n)"

definition bitrateOf :: "(rat \<Rightarrow> int) \<Rightarrow> format \<Rightarrow> int" where
  "bitrateOf lead f = orZero (parseInt lead (audioBitrate f))"

text \<open>
  \<^verbatim>\<open>
  const bestFormat = audioFormats.reduce((best, current) => {
      const bestBitrate = parseInt(best.audioBitrate) || 0;
      const currentBitrate = parseInt(current.audioBitrate) || 0;
      return currentBitrate > bestBitrate ? current : best;
  });\<close>
  \<open>reduce\<close> without an initial value starts from the first element and throws a
  \<open>TypeError\<close> on an empty array (\<open>None\<close>).
\<close>

definition better :: "(rat \<Rightarrow> int) \<Rightarrow> format \<Rightarrow> format \<Rightarrow> format" where
  "better lead best current =
     (if bitrateOf lead current > bitrateOf lead best then current else best)"

fun bestFormat :: "(rat \<Rightarrow> int) \<Rightarrow> format list \<Rightarrow> format option" where
  "bestFormat lead [] = None"
| "bestFormat lead (f # fs) = Some (foldl (better lead) f fs)"

section \<open>The JavaScript Map\<close>

text \<open>
  A \<open>Map\<close> iterates in insertion order, so it is an association list with the oldest
  key first. \<open>set\<close> on a key that is present replaces the value where it stands; on a
  new key it appends.
\<close>

definition mapGet :: "'k \<Rightarrow> ('k \<times> 'v) list \<Rightarrow> 'v option" where
  "mapGet k m = map_of m k"

fun mapSet :: "'k \<Rightarrow> 'v \<Rightarrow> ('k \<times> 'v) list \<Rightarrow> ('k \<times> 'v) list" where
  "mapSet k v [] = [(k, v)]"
| "mapSet k v (p # ps) = (if fst p = k then (k, v) # ps else p # mapSet k v ps)"

definition mapDelete :: "'k \<Rightarrow> ('k \<times> 'v) list \<Rightarrow> ('k \<times> 'v) list" where
  "mapDelete k m = filter (\<lambda>p. fst p \<noteq> k) m"

definition mapHas :: "'k \<Rightarrow> ('k \<times> 'v) list \<Rightarrow> bool" where
  "mapHas k m = (k \<in> set (map fst m))"

definition mapKeys :: "('k \<times> 'v) list \<Rightarrow> 'k list" where
  "mapKeys m = map fst m"

section \<open>The server's world\<close>

text \<open>
  What a handler reads and changes: the shared cache, the clock (\<open>Date.now()\<close>, in
  milliseconds) and the calls it makes, in order. The resolver is a parameter: the reply
  to the \<open>n\<close>-th call (counted from 0) for a URL is the time it takes and either an
  error message or the metadata.
\<close>

record entry =
  data :: videoInfo
  timestamp :: int

datatype event =
    CacheGet jsstring
  | CacheSet jsstring
  | CacheDelete jsstring
  | CacheHas jsstring
  | Resolve jsstring
  | Sleep int
  | OpenStream jsstring

record world =
  videoInfoCache :: "(jsstring \<times> entry) list"
  now :: int
  trace :: "event list"

type_synonym reply = "int \<times> (jsstring + videoInfo)"

type_synonym resolver = "nat \<Rightarrow> jsstring \<Rightarrow> reply"

definition CACHE_TTL :: int where
  "CACHE_TTL = 10 * 60 * 1000"

fun isResolve :: "event \<Rightarrow> bool" where
  "isResolve (Resolve u) = True"
| "isResolve e = False"

definition resolves :: "event list \<Rightarrow> nat" where
  "resolves t = length (filter isResolve t)"

definition logEvent :: "event \<Rightarrow> world \<Rightarrow> world" where
  "logEvent e w = w\<lparr>trace := trace w @ [e]\<rparr>"

definition elapse :: "int \<Rightarrow> world \<Rightarrow> world" where
  "elapse dt w = w\<lparr>now := now w + dt\<rparr>"

definition watchUrl :: "jsstring \<Rightarrow> jsstring" where
  "watchUrl videoId = js ''https://www.youtube.com/watch?v='' @ videoId"

text \<open>The call \<open>ytdl.getInfo(videoUrl)\<close>, up to the promise it returns.\<close>

definition requestInfo :: "resolver \<Rightarrow> jsstring \<Rightarrow> world \<Rightarrow> reply \<times> world" where
  "requestInfo R videoUrl w = (R (resolves (trace w)) videoUrl, logEvent (Resolve videoUrl) w)"

text \<open>\<open>await ytdl.getInfo(videoUrl)\<close>: the handler goes on when the reply is there.\<close>

definition getInfo :: "resolver \<Rightarrow> jsstring \<Rightarrow> world \<Rightarrow> (jsstring + videoInfo) \<times> world" where
  "getInfo R videoUrl w =
     (case requestInfo R videoUrl w of ((dt, r), w1) \<Rightarrow> (r, elapse dt w1))"

section \<open>The metadata cache\<close>

text \<open>
  \<^verbatim>\<open>
  async function getCachedVideoInfo(videoUrl, videoId) {
      const cacheKey = videoId;
      const cached = videoInfoCache.get(cacheKey);
      if (cached && Date.now() - cached.timestamp < CACHE_TTL) { return cached.data; }
      const videoInfo = await ytdl.getInfo(videoUrl, { ... });
      videoInfoCache.set(cacheKey, { data: videoInfo, timestamp: Date.now() });
      if (videoInfoCache.size > 1000) {
          const oldestKey = videoInfoCache.keys().next().value;
          videoInfoCache.delete(oldestKey);
      }
      return videoInfo;
  }\<close>
  The function runs without interruption up to its \<open>await\<close> (\<open>lookupVideoInfo\<close>) and
  again from the reply to its end (\<open>resumeVideoInfo\<close>). A handler that awaits it alone is
  \<open>getCachedVideoInfo\<close>; the batch handler starts several lookups before any reply.
\<close>

datatype lookup = Hit videoInfo | Awaiting int "jsstring + videoInfo"

definition lookupVideoInfo :: "resolver \<Rightarrow> jsstring \<Rightarrow> jsstring \<Rightarrow> world \<Rightarrow> lookup \<times> world" where
  "lookupVideoInfo R videoUrl videoId w =
     (let w1 = logEvent (CacheGet videoId) w;
          call = (case requestInfo R videoUrl w1 of ((dt, r), w2) \<Rightarrow> (Awaiting dt r, w2))
      in case mapGet videoId (videoInfoCache w) of
           None \<Rightarrow> call
         | Some cached \<Rightarrow>
             if now w - timestamp cached < CACHE_TTL then (Hit (data cached), w1) else call)"

definition evictOldest :: "world \<Rightarrow> world" where
  "evictOldest w =
     (if length (videoInfoCache w) > 1000
      then (case videoInfoCache w of
              [] \<Rightarrow> w
            | p # ps \<Rightarrow> logEvent (CacheDelete (fst p))
                        (w\<lparr>videoInfoCache := mapDelete (fst p) (videoInfoCache w)\<rparr>))
      else w)"

definition storeVideoInfo :: "jsstring \<Rightarrow> videoInfo \<Rightarrow> world \<Rightarrow> world" where
  "storeVideoInfo cacheKey info w =
     evictOldest (logEvent (CacheSet cacheKey)
       (w\<lparr>videoInfoCache :=
            mapSet cacheKey \<lparr>data = info, timestamp = now w\<rparr> (videoInfoCache w)\<rparr>))"

definition resumeVideoInfo ::
  "jsstring \<Rightarrow> jsstring + videoInfo \<Rightarrow> world \<Rightarrow> (jsstring + videoInfo) \<times> world" where
  "resumeVideoInfo videoId r w =
     (case r of
        Inl e \<Rightarrow> (Inl e, w)
      | Inr info \<Rightarrow> (Inr info, storeVideoInfo videoId info w))"

definition getCachedVideoInfo ::
  "resolver \<Rightarrow> jsstring \<Rightarrow> jsstring \<Rightarrow> world \<Rightarrow> (jsstring + videoInfo) \<times> world" where
  "getCachedVideoInfo R videoUrl videoId w =
     (case lookupVideoInfo R videoUrl videoId w of
        (Hit info, w1) \<Rightarrow> (Inr info, w1)
      | (Awaiting dt r, w1) \<Rightarrow> resumeVideoInfo videoId r (elapse dt w1))"

section \<open>Responses\<close>

text \<open>
  The response object: the status (200 until set), the headers the handler has put on it
  with \<open>res.set\<close>, and the body. What Express adds while it serialises (it completes or
  sets \<open>Content-Type\<close>, \<open>Content-Length\<close>, \<open>ETag\<close>) is not in the source and not in
  the model. Fields of a JSON body that are constants of the handler (\<open>status\<close>,
  \<open>note\<close>, \<open>example\<close>, \<open>suggestion\<close>) are left out.
\<close>

datatype queued = Queued jsstring jsstring jsstring jsstring
  \<comment> \<open>\<open>videoId\<close>, \<open>title\<close>, \<open>filename\<close>, \<open>downloadUrl\<close>; \<open>status: 'queued'\<close>\<close>

datatype failure = Failure "jsstring option" jsstring
  \<comment> \<open>\<open>videoId\<close> (\<open>None\<close> where the array read is \<open>undefined\<close>), \<open>error\<close>\<close>

datatype body =
    NoBody
  | ErrorBody jsstring "jsstring option"
      \<comment> \<open>\<open>error\<close>, \<open>details\<close>\<close>
  | DirectLinkBody jsstring jsstring jsstring jsstring format int
      \<comment> \<open>\<open>videoId\<close>, \<open>title\<close>, \<open>author\<close>, \<open>duration\<close>, the chosen format (its \<open>url\<close> and
          its container, codecs, bitrate and sample rate), \<open>expiresAt\<close>\<close>
  | Mp3Stream jsstring jsstring
      \<comment> \<open>the transcoder's output piped into the response: the URL streamed from and the
          text given to \<open>audioBitrate(parseInt(...))\<close>\<close>
  | BatchBody "queued list" "failure list" nat
      \<comment> \<open>\<open>successful\<close>, \<open>failed\<close>, \<open>total\<close>\<close>
  | VideoInfoBody "jsstring option" videoDetails jsstring "bool option"
      \<comment> \<open>\<open>videoId\<close>, the details echoed, the \<open>description\<close> sent, \<open>cached\<close>
          (\<open>index.js\<close> sends neither \<open>videoId\<close> nor \<open>cached\<close>)\<close>
  | FormatsBody "jsstring option" jsstring "format list" "format list" "format option"
      \<comment> \<open>\<open>videoId\<close>, \<open>videoTitle\<close>, the audio formats, the video formats,
          \<open>recommendedAudio\<close>\<close>
  | CompletedBody jsstring jsstring jsstring
      \<comment> \<open>\<open>videoTitle\<close>, \<open>filename\<close>, \<open>downloadUrl\<close>\<close>

record response =
  status :: nat
  headers :: "(string \<times> jsstring) list"
  body :: body

definition res0 :: response where
  "res0 = \<lparr>status = 200, headers = [], body = NoBody\<rparr>"

text \<open>\<open>res.set({...})\<close> sets each field in turn.\<close>

definition setHeaders :: "(string \<times> jsstring) list \<Rightarrow> response \<Rightarrow> response" where
  "setHeaders hs res = res\<lparr>headers := foldl (\<lambda>m (k, v). mapSet k v m) (headers res) hs\<rparr>"

text \<open>\<open>res.status(code).json(b)\<close>; \<open>res.json(b)\<close> is \<open>sendJson\<close> with the status kept.\<close>

definition sendJson :: "nat \<Rightarrow> body \<Rightarrow> response \<Rightarrow> response" where
  "sendJson code b res = res\<lparr>status := code, body := b\<rparr>"

definition pipeStream :: "jsstring \<Rightarrow> jsstring \<Rightarrow> response \<Rightarrow> response" where
  "pipeStream videoUrl bitrate res = res\<lparr>body := Mp3Stream videoUrl bitrate\<rparr>"

definition invalidId :: response where
  "invalidId = sendJson 400 (ErrorBody (js ''Invalid YouTube video ID format'') None) res0"

section \<open>The caching server (\<open>src/unnamed/part_000\<close>)\<close>

text \<open>
  A handler takes the resolver, the request's parameters and the world, and returns the
  response and the world it leaves. Each handler but the batch one awaits one call at a
  time, and is modelled as running alone from the request to the response. An exception
  of the resolver is the \<open>Inl\<close> reply and ends in the handler's \<open>catch\<close>; the replies
  \<open>Inr\<close> are well-formed metadata.
\<close>

definition noAudio :: "string \<Rightarrow> response \<Rightarrow> response" where
  "noAudio msg res = sendJson 400 (ErrorBody (js msg) None) res"

text \<open>\<open>GET /direct-link/:videoId\<close>\<close>

definition direct_link ::
  "(rat \<Rightarrow> int) \<Rightarrow> resolver \<Rightarrow> jsstring \<Rightarrow> world \<Rightarrow> response \<times> world" where
  "direct_link lead R videoId w =
     (if \<not> validateVideoId videoId then (invalidId, w)
      else case getCachedVideoInfo R (watchUrl videoId) videoId w of
        (Inl e, w1) \<Rightarrow>
          (sendJson 500 (ErrorBody (js ''Failed to get direct link'') (Some e)) res0, w1)
      | (Inr videoInfo, w1) \<Rightarrow>
          (let audioFormats = filterFormats (formats videoInfo) AudioOnly in
           if audioFormats = []
           then (noAudio ''No audio formats available for this video'' res0, w1)
           else case bestFormat lead audioFormats of
             None \<Rightarrow>
               (sendJson 500 (ErrorBody (js ''Failed to get direct link'')
                  (Some (js ''Reduce of empty array with no initial value''))) res0, w1)
           | Some best \<Rightarrow>
               (sendJson 200
                  (DirectLinkBody videoId (title (videoDetails videoInfo))
                     (author_name (videoDetails videoInfo))
                     (lengthSeconds (videoDetails videoInfo)) best
                     (now w1 + 6 * 60 * 60 * 1000)) res0, w1)))"

text \<open>
  \<open>GET /download-mp3/:videoId\<close>. \<open>req.query.bitrate || '128'\<close> is \<open>queryOr\<close>. The
  headers are set before the audio formats are looked at. Once the transcoder is piped
  into the response the handler has returned; what the stream does then is the
  libraries' business.
\<close>

definition queryOr :: "jsstring option \<Rightarrow> jsstring \<Rightarrow> jsstring" where
  "queryOr q d = (case q of None \<Rightarrow> d | Some v \<Rightarrow> if v = [] then d else v)"

definition attachment :: "jsstring \<Rightarrow> jsstring" where
  "attachment sanitizedTitle =
     js ''attachment; filename='' @ [34] @ sanitizedTitle @ js ''.mp3'' @ [34]"

definition downloadHeaders :: "jsstring \<Rightarrow> (string \<times> jsstring) list" where
  "downloadHeaders sanitizedTitle =
     [(''Content-Type'', js ''audio/mpeg''),
      (''Content-Disposition'', attachment sanitizedTitle),
      (''Access-Control-Allow-Origin'', js ''*''),
      (''Cache-Control'', js ''no-cache''),
      (''Connection'', js ''keep-alive'')]"

definition download_mp3 ::
  "resolver \<Rightarrow> jsstring \<Rightarrow> jsstring option \<Rightarrow> world \<Rightarrow> response \<times> world" where
  "download_mp3 R videoId bitrateQuery w =
     (if \<not> validateVideoId videoId then (invalidId, w)
      else case getCachedVideoInfo R (watchUrl videoId) videoId w of
        (Inl e, w1) \<Rightarrow> (sendJson 500 (ErrorBody (js ''Download failed'') (Some e)) res0, w1)
      | (Inr videoInfo, w1) \<Rightarrow>
          (let sanitizedTitle = sanitizeFilename (title (videoDetails videoInfo));
               res1 = setHeaders (downloadHeaders sanitizedTitle) res0;
               audioFormats = filterFormats (formats videoInfo) AudioOnly
           in if audioFormats = []
              then (noAudio ''No audio formats available'' res1, w1)
              else (pipeStream (watchUrl videoId) (queryOr bitrateQuery (js ''128'')) res1,
                    logEvent (OpenStream (watchUrl videoId)) w1)))"

text \<open>
  \<open>POST /batch-download\<close>. \<open>videoIds.map(async ...)\<close> runs every item up to its first
  \<open>await\<close>, in the order of the array, before any reply is there: an invalid identifier
  throws at once, a fresh cache entry is returned, anything else leaves a call to the
  resolver pending (\<open>startItems\<close>). The replies then come in the order of their delays
  (\<open>arrivals\<close>) and each resumes its item (\<open>deliver\<close>). The \<open>i\<close>-th item draws
  \<open>uuidv4 i\<close>.
\<close>

datatype started = Threw jsstring | Looked lookup

datatype settled = Fulfilled queued | Rejected jsstring

definition startItem :: "resolver \<Rightarrow> jsstring \<Rightarrow> world \<Rightarrow> started \<times> world" where
  "startItem R videoId w =
     (if \<not> validateVideoId videoId then (Threw (js ''Invalid video ID: '' @ videoId), w)
      else case lookupVideoInfo R (watchUrl videoId) videoId w of (l, w1) \<Rightarrow> (Looked l, w1))"

fun startItems :: "resolver \<Rightarrow> jsstring list \<Rightarrow> world \<Rightarrow> started list \<times> world" where
  "startItems R [] w = ([], w)"
| "startItems R (videoId # videoIds) w =
     (case startItem R videoId w of (s, w1) \<Rightarrow>
        (case startItems R videoIds w1 of (ss, w2) \<Rightarrow> (s # ss, w2)))"

definition queuedItem :: "jsstring \<Rightarrow> jsstring \<Rightarrow> videoInfo \<Rightarrow> queued" where
  "queuedItem uuid videoId videoInfo =
     (let sanitizedTitle = sanitizeFilename (title (videoDetails videoInfo));
          uniqueId = take 8 uuid;
          filename = sanitizedTitle @ js ''_'' @ uniqueId @ js ''.mp3''
      in Queued videoId (title (videoDetails videoInfo)) filename (js ''/downloads/'' @ filename))"

fun settle :: "jsstring \<Rightarrow> jsstring \<Rightarrow> started \<Rightarrow> settled" where
  "settle uuid videoId (Threw m) = Rejected m"
| "settle uuid videoId (Looked (Hit videoInfo)) = Fulfilled (queuedItem uuid videoId videoInfo)"
| "settle uuid videoId (Looked (Awaiting dt (Inl e))) = Rejected e"
| "settle uuid videoId (Looked (Awaiting dt (Inr videoInfo))) =
     Fulfilled (queuedItem uuid videoId videoInfo)"

fun settleAll :: "(nat \<Rightarrow> jsstring) \<Rightarrow> nat \<Rightarrow> jsstring list \<Rightarrow> started list \<Rightarrow> settled list" where
  "settleAll uuidv4 i (videoId # videoIds) (s # ss) =
     settle (uuidv4 i) videoId s # settleAll uuidv4 (Suc i) videoIds ss"
| "settleAll uuidv4 i videoIds ss = []"

fun pendingOf :: "jsstring list \<Rightarrow> started list \<Rightarrow> (int \<times> jsstring \<times> (jsstring + videoInfo)) list" where
  "pendingOf (videoId # videoIds) (Looked (Awaiting dt r) # ss) =
     (dt, videoId, r) # pendingOf videoIds ss"
| "pendingOf (videoId # videoIds) (s # ss) = pendingOf videoIds ss"
| "pendingOf videoIds ss = []"

definition arrivals :: "jsstring list \<Rightarrow> started list \<Rightarrow> (int \<times> jsstring \<times> (jsstring + videoInfo)) list" where
  "arrivals videoIds ss = sort_key fst (pendingOf videoIds ss)"

fun deliver :: "int \<Rightarrow> (int \<times> jsstring \<times> (jsstring + videoInfo)) list \<Rightarrow> world \<Rightarrow> world" where
  "deliver t0 [] w = w"
| "deliver t0 ((dt, videoId, r) # rest) w =
     deliver t0 rest (snd (resumeVideoInfo videoId r (w\<lparr>now := t0 + dt\<rparr>)))"

fun isFulfilled :: "settled \<Rightarrow> bool" where
  "isFulfilled (Fulfilled v) = True"
| "isFulfilled (Rejected m) = False"

fun isRejected :: "settled \<Rightarrow> bool" where
  "isRejected (Rejected m) = True"
| "isRejected (Fulfilled v) = False"

fun valuesOf :: "settled list \<Rightarrow> queued list" where
  "valuesOf [] = []"
| "valuesOf (Fulfilled v # rs) = v # valuesOf rs"
| "valuesOf (Rejected m # rs) = valuesOf rs"

fun reasonOf :: "settled \<Rightarrow> jsstring" where
  "reasonOf (Rejected m) = m"
| "reasonOf (Fulfilled v) = []"

text \<open>An array read \<open>xs[i]\<close>: \<open>undefined\<close> (\<open>None\<close>) past the end.\<close>

definition jsIndex :: "'a list \<Rightarrow> nat \<Rightarrow> 'a option" where
  "jsIndex xs i = (if i < length xs then Some (xs ! i) else None)"

text \<open>
  \<^verbatim>\<open>
  const failed = results
      .filter(result => result.status === 'rejected')
      .map((result, index) => ({ videoId: videoIds[index], error: result.reason.message }));\<close>
  The \<open>index\<close> that \<open>map\<close> passes is the position in the filtered array.
\<close>

definition failedOf :: "jsstring list \<Rightarrow> settled list \<Rightarrow> failure list" where
  "failedOf videoIds results =
     map (\<lambda>(index, result). Failure (jsIndex videoIds index) (reasonOf result))
       (enumerate 0 (filter isRejected results))"

definition successfulOf :: "settled list \<Rightarrow> queued list" where
  "successfulOf results = valuesOf (filter isFulfilled results)"

definition batch_download ::
  "resolver \<Rightarrow> (nat \<Rightarrow> jsstring) \<Rightarrow> jsstring list option \<Rightarrow> world \<Rightarrow> response \<times> world" where
  "batch_download R uuidv4 body_videoIds w =
     (case body_videoIds of
        None \<Rightarrow> (sendJson 400 (ErrorBody (js ''videoIds array is required'') None) res0, w)
      | Some videoIds \<Rightarrow>
          if videoIds = []
          then (sendJson 400 (ErrorBody (js ''videoIds array is required'') None) res0, w)
          else if length videoIds > 10
          then (sendJson 400 (ErrorBody (js ''Maximum 10 videos per batch'') None) res0, w)
          else case startItems R videoIds w of (ss, w1) \<Rightarrow>
            (let results = settleAll uuidv4 0 videoIds ss;
                 w2 = deliver (now w) (arrivals videoIds ss) w1
             in (sendJson 200
                   (BatchBody (successfulOf results) (failedOf videoIds results)
                      (length videoIds)) res0, w2)))"

text \<open>\<open>GET /video-info/:videoId\<close>. \<open>description?.substring(0, n) + '...'\<close> is \<open>describe n\<close>.\<close>

definition describe :: "nat \<Rightarrow> jsstring option \<Rightarrow> jsstring" where
  "describe n d = (case d of None \<Rightarrow> js ''undefined'' | Some t \<Rightarrow> take n t) @ js ''...''"

definition video_info :: "resolver \<Rightarrow> jsstring \<Rightarrow> world \<Rightarrow> response \<times> world" where
  "video_info R videoId w =
     (if \<not> validateVideoId videoId then (invalidId, w)
      else case getCachedVideoInfo R (watchUrl videoId) videoId w of
        (Inl e, w1) \<Rightarrow> (sendJson 404 (ErrorBody (js ''Video not found'') (Some e)) res0, w1)
      | (Inr videoInfo, w1) \<Rightarrow>
          (sendJson 200
             (VideoInfoBody (Some videoId) (videoDetails videoInfo)
                (describe 300 (description (videoDetails videoInfo)))
                (Some (mapHas videoId (videoInfoCache w1)))) res0,
           logEvent (CacheHas videoId) w1))"

text \<open>\<open>GET /formats/:videoId\<close>. \<open>audioInfo[0] || null\<close> is the first audio format, if any.\<close>

definition formats_route :: "resolver \<Rightarrow> jsstring \<Rightarrow> world \<Rightarrow> response \<times> world" where
  "formats_route R videoId w =
     (if \<not> validateVideoId videoId then (invalidId, w)
      else case getCachedVideoInfo R (watchUrl videoId) videoId w of
        (Inl e, w1) \<Rightarrow> (sendJson 404 (ErrorBody (js ''Video not found'') (Some e)) res0, w1)
      | (Inr videoInfo, w1) \<Rightarrow>
          (let audioFormats = filterFormats (formats videoInfo) AudioOnly;
               videoFormats = filterFormats (formats videoInfo) VideoOnly
           in (sendJson 200
                 (FormatsBody (Some videoId) (title (videoDetails videoInfo)) audioFormats
                    (take 10 videoFormats) (jsIndex audioFormats 0)) res0, w1)))"

section \<open>The basic server (\<open>src/index.js\<close>)\<close>

text \<open>
  This server has no cache: its handlers call \<open>ytdl.getInfo\<close> themselves.
  \<^verbatim>\<open>
  let videoInfo;
  let retries = 3;
  while (retries > 0) {
      try { videoInfo = await ytdl.getInfo(videoUrl); break; }
      catch (error) {
          retries--;
          if (retries === 0) { throw error; }
          await new Promise(resolve => setTimeout(resolve, 2000));
      }
  }\<close>
  \<open>retryLoop\<close> is the loop for any starting value of \<open>retries\<close>; it returns the
  exception thrown (\<open>Inl\<close>) or the value of \<open>videoInfo\<close> after the loop, which is still
  \<open>undefined\<close> (\<open>None\<close>) when the loop body never ran.
\<close>

fun retryLoop ::
  "resolver \<Rightarrow> jsstring \<Rightarrow> nat \<Rightarrow> world \<Rightarrow> (jsstring + videoInfo option) \<times> world" where
  "retryLoop R videoUrl 0 w = (Inr None, w)"
| "retryLoop R videoUrl (Suc retries) w =
     (case getInfo R videoUrl w of
        (Inr videoInfo, w1) \<Rightarrow> (Inr (Some videoInfo), w1)
      | (Inl error, w1) \<Rightarrow>
          if retries = 0 then (Inl error, w1)
          else retryLoop R videoUrl retries (elapse 2000 (logEvent (Sleep 2000) w1)))"

definition downloadHeaders_index :: "jsstring \<Rightarrow> (string \<times> jsstring) list" where
  "downloadHeaders_index sanitizedTitle =
     [(''Content-Type'', js ''audio/mpeg''),
      (''Content-Disposition'', attachment sanitizedTitle),
      (''Access-Control-Allow-Origin'', js ''*'')]"

definition serverError_index :: "jsstring \<Rightarrow> response" where
  "serverError_index details =
     sendJson 500 (ErrorBody (js ''Internal server error'') (Some details)) res0"

text \<open>\<open>GET /download-mp3/:videoId\<close>; \<open>!videoId\<close> holds of the empty string.\<close>

definition download_mp3_index :: "resolver \<Rightarrow> jsstring \<Rightarrow> world \<Rightarrow> response \<times> world" where
  "download_mp3_index R videoId w =
     (if videoId = [] then (sendJson 400 (ErrorBody (js ''Video ID is required'') None) res0, w)
      else if \<not> validateVideoId videoId then (invalidId, w)
      else case retryLoop R (watchUrl videoId) 3 w of
        (Inl error, w1) \<Rightarrow> (serverError_index error, w1)
      | (Inr None, w1) \<Rightarrow>
          (serverError_index
             (js ''Cannot read properties of undefined (reading 'videoDetails')''), w1)
      | (Inr (Some videoInfo), w1) \<Rightarrow>
          (let sanitizedTitle = sanitizeFilename_index (title (videoDetails videoInfo));
               res1 = setHeaders (downloadHeaders_index sanitizedTitle) res0;
               audioFormats = filterFormats (formats videoInfo) AudioOnly
           in if audioFormats = []
              then (noAudio ''No audio formats available for this video'' res1, w1)
              else (pipeStream (watchUrl videoId) (js ''128'') res1,
                    logEvent (OpenStream (watchUrl videoId)) w1)))"

text \<open>
  \<open>POST /download-mp3\<close>, with the \<open>videoId\<close> of the JSON body (\<open>None\<close> when it is
  missing). The transcoder writes a file and then emits \<open>end\<close> (\<open>conversion = None\<close>) or
  \<open>error\<close> with a message.
\<close>

definition download_mp3_post_index ::
  "resolver \<Rightarrow> jsstring \<Rightarrow> jsstring option \<Rightarrow> jsstring option \<Rightarrow> world \<Rightarrow> response \<times> world" where
  "download_mp3_post_index R uuid conversion body_videoId w =
     (case body_videoId of
        None \<Rightarrow> (sendJson 400 (ErrorBody (js ''Video ID is required'') None) res0, w)
      | Some videoId \<Rightarrow>
          if videoId = []
          then (sendJson 400 (ErrorBody (js ''Video ID is required'') None) res0, w)
          else if \<not> validateVideoId videoId then (invalidId, w)
          else (case getInfo R (watchUrl videoId) w of
            (Inl error, w1) \<Rightarrow>
              (sendJson 404 (ErrorBody (js ''Video not found or unavailable'') (Some error)) res0,
               w1)
          | (Inr videoInfo, w1) \<Rightarrow>
              (let videoTitle = title (videoDetails videoInfo);
                   sanitizedTitle = sanitizeFilename_index videoTitle;
                   uniqueId = take 8 uuid;
                   outputFileName = sanitizedTitle @ js ''_'' @ uniqueId @ js ''.mp3'';
                   w2 = logEvent (OpenStream (watchUrl videoId)) w1
               in (case conversion of
                     None \<Rightarrow>
                       (sendJson 200
                          (CompletedBody videoTitle outputFileName
                             (js ''/downloads/'' @ outputFileName)) res0, w2)
                   | Some err \<Rightarrow>
                       (sendJson 500 (ErrorBody (js ''Conversion failed'') (Some err)) res0,
                        w2)))))"

text \<open>\<open>GET /video-info/:videoId\<close> and \<open>GET /formats/:videoId\<close>: no test of the identifier.\<close>

definition video_info_index :: "resolver \<Rightarrow> jsstring \<Rightarrow> world \<Rightarrow> response \<times> world" where
  "video_info_index R videoId w =
     (case getInfo R (watchUrl videoId) w of
        (Inl error, w1) \<Rightarrow>
          (sendJson 404 (ErrorBody (js ''Video not found'') (Some error)) res0, w1)
      | (Inr videoInfo, w1) \<Rightarrow>
          (sendJson 200
             (VideoInfoBody None (videoDetails videoInfo)
                (describe 200 (description (videoDetails videoInfo))) None) res0, w1))"

definition formats_route_index :: "resolver \<Rightarrow> jsstring \<Rightarrow> world \<Rightarrow> response \<times> world" where
  "formats_route_index R videoId w =
     (case getInfo R (watchUrl videoId) w of
        (Inl error, w1) \<Rightarrow>
          (sendJson 404 (ErrorBody (js ''Video not found'') (Some error)) res0, w1)
      | (Inr videoInfo, w1) \<Rightarrow>
          (sendJson 200
             (FormatsBody None (title (videoDetails videoInfo))
                (filterFormats (formats videoInfo) AudioOnly) [] None) res0, w1))"

section \<open>Sample data\<close>

definition sampleFormat :: "nat \<Rightarrow> jsnumber option \<Rightarrow> format" where
  "sampleFormat i b =
     \<lparr>itag = i, kind = AudioOnly, container = js ''webm'', codecs = js ''opus'',
      audioBitrate = b, audioSampleRate = js ''48000'', url = js ''https://cdn/a''\<rparr>"

definition sampleDetails :: videoDetails where
  "sampleDetails =
     \<lparr>title = js ''Artist: Song (Live) #1!'', author_name = js ''Artist'',
      lengthSeconds = js ''212'', viewCount = js ''7'', description = None,
      uploadDate = js ''2020-01-01'', category = js ''Music''\<rparr>"

definition sampleInfo :: videoInfo where
  "sampleInfo = \<lparr>videoDetails = sampleDetails, formats = [sampleFormat 251 (Some (Num 160))]\<rparr>"

text \<open>Metadata with one format, which carries video only.\<close>

definition silentInfo :: videoInfo where
  "silentInfo =
     \<lparr>videoDetails = sampleDetails,
      formats = [(sampleFormat 137 None)\<lparr>kind := VideoOnly, container := js ''mp4''\<rparr>]\<rparr>"

definition world0 :: world where
  "world0 = \<lparr>videoInfoCache = [], now = 0, trace = []\<rparr>"

text \<open>
  What \<open>parseInt\<close> reads from an exponent text that begins with the digit 1, such as
  \<open>1e+21\<close>, \<open>-1e+21\<close> or \<open>1e-7\<close>: that digit, with the sign.
\<close>

definition oneLead :: "rat \<Rightarrow> int" where
  "oneLead q = (if q < 0 then - 1 else 1)"

text \<open>Resolvers: one that always answers, one that never does, one whose first call fails.\<close>

definition alwaysOk :: resolver where
  "alwaysOk n u = (50, Inr sampleInfo)"

definition alwaysSilent :: resolver where
  "alwaysSilent n u = (50, Inr silentInfo)"

definition neverOk :: resolver where
  "neverOk n u = (50, Inl (js ''Video unavailable''))"

definition failsOnce :: resolver where
  "failsOnce n u = (if n = 0 then (50, Inl (js ''Video unavailable'')) else (50, Inr sampleInfo))"

definition noUuid :: "nat \<Rightarrow> jsstring" where
  "noUuid i = js ''0f8fad5b-d9cb-469f-a165-70867728950e''"

definition exampleFormats :: "format list" where
  "exampleFormats =
     [sampleFormat 1 (Some (Num 64)), sampleFormat 2 (Some (Num 160)),
      sampleFormat 3 (Some (Num 128)), sampleFormat 4 (Some (Num 160))]"

section \<open>The sanitization rule in the specification's words\<close>

text \<open>
  Strip the characters outside \<open>[A-Za-z0-9_\s-]\<close>, collapse whitespace and hyphen runs
  to a single underscore, lowercase, truncate to 100 characters. \<open>squeeze\<close> reads the
  string once and remembers whether it is inside a run.
\<close>

fun squeeze :: "bool \<Rightarrow> jsstring \<Rightarrow> jsstring" where
  "squeeze inRun [] = []"
| "squeeze inRun (c # cs) =
     (if isSep c then (if inRun then squeeze True cs else 95 # squeeze True cs)
      else c # squeeze False cs)"

definition sanitize_spec :: "jsstring \<Rightarrow> jsstring" where
  "sanitize_spec s = take 100 (map toLowerChar (squeeze False (filter keepChar s)))"

section \<open>Reading a trace and a response\<close>

text \<open>
  The cache of a running server has distinct keys (it is a \<open>Map\<close>) and at most 1000
  entries: \<open>cacheOk\<close> holds of the empty cache and every handler keeps it.
\<close>

definition cacheOk :: "world \<Rightarrow> bool" where
  "cacheOk w = (distinct (mapKeys (videoInfoCache w)) \<and> length (videoInfoCache w) \<le> 1000)"

text \<open>The events a handler has added to the trace.\<close>

definition newEvents :: "world \<Rightarrow> world \<Rightarrow> event list" where
  "newEvents w w' = drop (length (trace w)) (trace w')"

text \<open>The events that look an identifier up, store it or resolve it.\<close>

definition requestsFor :: "jsstring \<Rightarrow> event \<Rightarrow> bool" where
  "requestsFor videoId e =
     (e = CacheGet videoId \<or> e = CacheSet videoId \<or> e = CacheHas videoId
      \<or> e = Resolve (watchUrl videoId) \<or> e = OpenStream (watchUrl videoId))"

fun isSleep :: "event \<Rightarrow> bool" where
  "isSleep (Sleep n) = True"
| "isSleep e = False"

fun failedList :: "body \<Rightarrow> failure list" where
  "failedList (BatchBody successful failed n) = failed"
| "failedList b = []"

fun failureReason :: "failure \<Rightarrow> jsstring" where
  "failureReason (Failure v e) = e"

fun failureId :: "failure \<Rightarrow> jsstring option" where
  "failureId (Failure v e) = v"

text \<open>
  The attempts of a handler: its calls of the resolver and the pauses between them, in
  order.
\<close>

definition isAttempt :: "event \<Rightarrow> bool" where
  "isAttempt e = (isResolve e \<or> isSleep e)"


text \<open>
  What the resolver answers to the \<open>i\<close>-th call (counted from 0) that a handler started
  in \<open>w\<close> makes for an identifier.
\<close>

definition reply :: "resolver \<Rightarrow> world \<Rightarrow> jsstring \<Rightarrow> nat \<Rightarrow> jsstring + videoInfo" where
  "reply R w videoId i = snd (R (resolves (trace w) + i) (watchUrl videoId))"

text \<open>
  An identifier has a fresh entry when the test of the cache helper,
  \<^verbatim>\<open>cached && Date.now() - cached.timestamp < CACHE_TTL\<close>, holds of it. The items of a batch
  that the resolver is awaited for are those whose identifier passes \<open>validateVideoId\<close>
  and has no fresh entry when the batch starts, in the order of the batch and as often as
  the batch lists them.
\<close>

definition freshEntry :: "world \<Rightarrow> jsstring \<Rightarrow> bool" where
  "freshEntry w videoId =
     (case mapGet videoId (videoInfoCache w) of
        None \<Rightarrow> False
      | Some cached \<Rightarrow> now w - timestamp cached < CACHE_TTL)"

definition awaited :: "world \<Rightarrow> jsstring list \<Rightarrow> jsstring list" where
  "awaited w videoIds = filter (\<lambda>k. validateVideoId k \<and> \<not> freshEntry w k) videoIds"

text \<open>
  The events that the items of a batch can add: lookups, calls and stores for identifiers
  that pass the test, and evictions. \<open>urlId\<close> takes the identifier back out of a watch
  URL.
\<close>

definition urlId :: "jsstring \<Rightarrow> jsstring" where
  "urlId u = drop (length (js ''https://www.youtube.com/watch?v='')) u"

fun itemEvent :: "event \<Rightarrow> bool" where
  "itemEvent (CacheGet k) = validateVideoId k"
| "itemEvent (CacheSet k) = validateVideoId k"
| "itemEvent (CacheDelete k) = True"
| "itemEvent (Resolve u) = validateVideoId (urlId u)"
| "itemEvent e = False"

section \<open>More sample data\<close>

text \<open>A thousand identifiers, \<open>video000000\<close> to \<open>video000999\<close>, and a cache that holds them.\<close>

definition sampleKey :: "nat \<Rightarrow> jsstring" where
  "sampleKey i = js ''video000'' @ [48 + i div 100 mod 10, 48 + i div 10 mod 10, 48 + i mod 10]"

definition sampleEntry :: "int \<Rightarrow> entry" where
  "sampleEntry t = \<lparr>data = sampleInfo, timestamp = t\<rparr>"

definition fullCache :: "(jsstring \<times> entry) list" where
  "fullCache = map (\<lambda>i. (sampleKey i, sampleEntry (int i))) [0..<1000]"

definition fullWorld :: world where
  "fullWorld = \<lparr>videoInfoCache = fullCache, now = 1000, trace = []\<rparr>"

text \<open>A world whose cache holds one entry stored at time 0, at a chosen time.\<close>

definition warmWorld :: "int \<Rightarrow> world" where
  "warmWorld t = \<lparr>videoInfoCache = [(js ''dQw4w9WgXcQ'', sampleEntry 0)], now = t, trace = []\<rparr>"

section \<open>Sanitized filenames\<close>

lemmas cls = isDigit_def isUpper_def isLower_def isAlnum_def isWord_def isSpace_def isIdChar_def keepChar_def isSep_def toLowerChar_def toLowerCase_def

lemma squeeze_collapseRuns:
  "squeeze False cs = collapseRuns cs \<and> squeeze True cs = collapseRuns (dropWhile isSep cs)"
  by (induction cs) auto

lemma collapseRuns_word: "list_all keepChar s \<Longrightarrow> list_all isWord (collapseRuns s)"
proof (induction s rule: collapseRuns.induct)
  case 1
  then show ?case by simp
next
  case (2 c cs)
  show ?case
  proof (cases "isSep c")
    case True
    have "list_all keepChar (dropWhile isSep cs)"
      using "2.prems" set_dropWhileD[of _ isSep cs] by (auto simp: list_all_iff)
    with True "2.IH"(1) show ?thesis by (simp add: isWord_def)
  next
    case False
    with "2.prems" have "isWord c" by (auto simp: keepChar_def isSep_def)
    with False "2.IH"(2) "2.prems" show ?thesis by simp
  qed
qed

lemma toLowerChar_word: "isWord c \<Longrightarrow> isLower (toLowerChar c) \<or> isDigit (toLowerChar c) \<or> toLowerChar c = 95"
  by (auto simp: cls)

lemma replaceNonAlnum_word: "list_all isWord (replaceNonAlnum s)"
  by (induction s) (auto simp: replaceNonAlnum_def isWord_def)

lemma sanitizeFilename_chars:
  "list_all (\<lambda>c. isLower c \<or> isDigit c \<or> c = 95) (sanitizeFilename s)"
proof -
  have "list_all isWord (collapseRuns (filter keepChar s))"
    by (rule collapseRuns_word) (simp add: list_all_iff)
  then have "list_all (\<lambda>c. isLower c \<or> isDigit c \<or> c = 95) (toLowerCase (collapseRuns (filter keepChar s)))"
    using toLowerChar_word by (auto simp: list_all_iff toLowerCase_def)
  then show ?thesis
    unfolding sanitizeFilename_def by (auto simp: list_all_iff dest: in_set_takeD)
qed

lemma sanitizeFilename_example: "sanitizeFilename (js ''Artist: Song (Live) #1!'') = js ''artist_song_live_1''"
  by (simp add: sanitizeFilename_def js_def cls)

lemma sanitizeFilename_index_example: "sanitizeFilename_index (js ''Artist: Song (Live) #1!'') = js ''artist__song__live___1_''"
  by (simp add: sanitizeFilename_index_def replaceNonAlnum_def js_def cls)

text \<open>
  Claim C7, as amended. The caching server's \<open>sanitizeFilename\<close> is the rule of the
  specification: on every string it strips the characters outside \<open>[A-Za-z0-9_\s-]\<close>,
  collapses each run of whitespace and hyphens to one underscore, lowercases and truncates
  to 100 characters, so that the result has at most 100 characters, all of them lowercase
  letters, digits or underscores, and \<open>Artist: Song (Live) #1!\<close> becomes
  \<open>artist_song_live_1\<close>. The basic server's \<open>sanitizeFilename\<close> replaces each character
  outside \<open>[A-Za-z0-9]\<close> by an underscore and lowercases the rest; it neither collapses
  nor truncates, and the same title becomes \<open>artist__song__live___1_\<close>.
\<close>

theorem sanitizeFilename_by_server:
  "sanitizeFilename s = sanitize_spec s
   \<and> length (sanitizeFilename s) \<le> 100
   \<and> list_all (\<lambda>c. isLower c \<or> isDigit c \<or> c = 95) (sanitizeFilename s)
   \<and> sanitizeFilename (js ''Artist: Song (Live) #1!'') = js ''artist_song_live_1''
   \<and> sanitizeFilename_index s = map (\<lambda>c. if isAlnum c then toLowerChar c else 95) s
   \<and> length (sanitizeFilename_index s) = length s
   \<and> sanitizeFilename_index (js ''Artist: Song (Live) #1!'') = js ''artist__song__live___1_''"
proof -
  have a: "sanitizeFilename s = sanitize_spec s"
    by (simp add: sanitizeFilename_def sanitize_spec_def toLowerCase_def squeeze_collapseRuns)
  have b: "length (sanitizeFilename s) \<le> 100"
    by (simp add: sanitizeFilename_def)
  have e: "sanitizeFilename_index s = map (\<lambda>c. if isAlnum c then toLowerChar c else 95) s"
    by (simp add: sanitizeFilename_index_def replaceNonAlnum_def toLowerCase_def toLowerChar_def isUpper_def)
  have f: "length (sanitizeFilename_index s) = length s"
    by (simp add: e)
  from a b sanitizeFilename_chars sanitizeFilename_example e f sanitizeFilename_index_example show ?thesis by blast
qed

text \<open>
  Claim C7, as stated, fails for the \<open>sanitizeFilename\<close> of \<open>src/index.js\<close>: it does not
  map \<open>Artist: Song (Live) #1!\<close> to \<open>artist_song_live_1\<close>.
\<close>

theorem sanitizeFilename_index_counterexample:
  "sanitizeFilename_index (js ''Artist: Song (Live) #1!'') \<noteq> js ''artist_song_live_1''"
  by (simp add: sanitizeFilename_index_def replaceNonAlnum_def js_def cls)

section \<open>The selected format\<close>

lemma foldl_better_split:
  "xs = pre @ acc # post \<Longrightarrow> \<forall>x\<in>set pre. bitrateOf lead x < bitrateOf lead acc \<Longrightarrow>
   \<forall>x\<in>set post. bitrateOf lead x \<le> bitrateOf lead acc \<Longrightarrow>
   \<exists>pre' post'. xs @ rest = pre' @ foldl (better lead) acc rest # post'
      \<and> (\<forall>x\<in>set pre'. bitrateOf lead x < bitrateOf lead (foldl (better lead) acc rest))
      \<and> (\<forall>x\<in>set post'. bitrateOf lead x \<le> bitrateOf lead (foldl (better lead) acc rest))"
proof (induction rest arbitrary: xs pre acc post)
  case Nil
  then show ?case by auto
next
  case (Cons r rest)
  show ?case
  proof (cases "bitrateOf lead r > bitrateOf lead acc")
    case True
    have "xs @ [r] = (pre @ acc # post) @ r # []" using Cons.prems(1) by simp
    moreover have "\<forall>x\<in>set (pre @ acc # post). bitrateOf lead x < bitrateOf lead r"
      using True Cons.prems(2,3) by fastforce
    ultimately have step:
      "\<exists>pre' post'. (xs @ [r]) @ rest = pre' @ foldl (better lead) r rest # post'
      \<and> (\<forall>x\<in>set pre'. bitrateOf lead x < bitrateOf lead (foldl (better lead) r rest))
      \<and> (\<forall>x\<in>set post'. bitrateOf lead x \<le> bitrateOf lead (foldl (better lead) r rest))"
      by (intro Cons.IH[of "xs @ [r]" "pre @ acc # post" r "[]"]) auto
    have "better lead acc r = r" using True by (simp add: better_def)
    with step show ?thesis by simp
  next
    case False
    have "xs @ [r] = pre @ acc # (post @ [r])" using Cons.prems(1) by simp
    moreover have "\<forall>x\<in>set (post @ [r]). bitrateOf lead x \<le> bitrateOf lead acc"
      using False Cons.prems(3) by auto
    ultimately have step:
      "\<exists>pre' post'. (xs @ [r]) @ rest = pre' @ foldl (better lead) acc rest # post'
      \<and> (\<forall>x\<in>set pre'. bitrateOf lead x < bitrateOf lead (foldl (better lead) acc rest))
      \<and> (\<forall>x\<in>set post'. bitrateOf lead x \<le> bitrateOf lead (foldl (better lead) acc rest))"
      using Cons.prems(2) by (intro Cons.IH[of "xs @ [r]" pre acc "post @ [r]"]) auto
    have "better lead acc r = acc" using False by (simp add: better_def)
    with step show ?thesis by simp
  qed
qed

text \<open>The parsed bitrate of each kind of field.\<close>

lemma bitrateOf_absent:
  "bitrateOf lead (f\<lparr>audioBitrate := None\<rparr>) = 0"
  "bitrateOf lead (f\<lparr>audioBitrate := Some NaN\<rparr>) = 0"
  "bitrateOf lead (f\<lparr>audioBitrate := Some PosInfinity\<rparr>) = 0"
  "bitrateOf lead (f\<lparr>audioBitrate := Some NegInfinity\<rparr>) = 0"
  by (simp_all add: bitrateOf_def orZero_def parseInt_def)

lemma bitrateOf_number:
  "bitrateOf lead (f\<lparr>audioBitrate := Some (Num q)\<rparr>) =
     (if exponentText q then lead q else towardZero q)"
  by (simp add: bitrateOf_def orZero_def parseInt_def)

lemma integer_text: "\<bar>n\<bar> < 10 ^ 21 \<Longrightarrow> \<not> exponentText (of_int n)"
proof -
  assume b: "\<bar>n\<bar> < 10 ^ 21"
  have "\<bar>of_int n :: rat\<bar> = of_int \<bar>n\<bar>" by simp
  also have "\<dots> < of_int (10 ^ 21)" using b by (simp only: of_int_less_iff)
  finally have hi: "\<bar>of_int n :: rat\<bar> < 10 ^ 21" by simp
  have lo: "\<not> \<bar>of_int n :: rat\<bar> < 1 / 10 ^ 6" if "n \<noteq> 0"
  proof -
    from that have "1 \<le> \<bar>n\<bar>" by simp
    then have "(1 :: rat) \<le> of_int \<bar>n\<bar>" by (simp only: of_int_1_le_iff)
    then show ?thesis by simp
  qed
  from hi lo show ?thesis by (auto simp: exponentText_def)
qed

lemma towardZero_of_int: "towardZero (of_int n) = n"
  by (simp add: towardZero_def)

lemma exampleFormats_bitrates: "map (bitrateOf lead) exampleFormats = [64, 160, 128, 160]"
  by (simp add: exampleFormats_def sampleFormat_def bitrateOf_def orZero_def parseInt_def
      exponentText_def towardZero_def)

text \<open>
  Claim C4. On a non-empty list of formats the selector returns the first format of
  maximal parsed bitrate: every format before it has a strictly smaller bitrate and every
  format after it a smaller or equal one. The parsed bitrate of a field that is missing,
  \<open>NaN\<close> or infinite is 0; that of an integer below \<open>10^21\<close> in magnitude is the integer
  and that of a fraction with a decimal text is the fraction cut off towards zero; a
  number that is written with an exponent counts as the digit \<open>parseInt\<close> reads from its
  text.
\<close>

theorem bestFormat_first_maximum:
  "fs \<noteq> [] \<Longrightarrow>
     (\<exists>pre best post. fs = pre @ best # post \<and> bestFormat lead fs = Some best
        \<and> (\<forall>x\<in>set pre. bitrateOf lead x < bitrateOf lead best)
        \<and> (\<forall>x\<in>set post. bitrateOf lead x \<le> bitrateOf lead best))
     \<and> bitrateOf lead (f\<lparr>audioBitrate := None\<rparr>) = 0
     \<and> bitrateOf lead (f\<lparr>audioBitrate := Some NaN\<rparr>) = 0
     \<and> bitrateOf lead (f\<lparr>audioBitrate := Some PosInfinity\<rparr>) = 0
     \<and> bitrateOf lead (f\<lparr>audioBitrate := Some NegInfinity\<rparr>) = 0
     \<and> (\<bar>n\<bar> < 10 ^ 21 \<longrightarrow> bitrateOf lead (f\<lparr>audioBitrate := Some (Num (of_int n))\<rparr>) = n)
     \<and> (\<not> exponentText q \<longrightarrow>
          bitrateOf lead (f\<lparr>audioBitrate := Some (Num q)\<rparr>) = towardZero q)
     \<and> (exponentText q \<longrightarrow> bitrateOf lead (f\<lparr>audioBitrate := Some (Num q)\<rparr>) = lead q)"
proof -
  assume "fs \<noteq> []"
  then obtain g gs where fs: "fs = g # gs" by (cases fs) auto
  have "\<exists>pre' post'. [g] @ gs = pre' @ foldl (better lead) g gs # post'
      \<and> (\<forall>x\<in>set pre'. bitrateOf lead x < bitrateOf lead (foldl (better lead) g gs))
      \<and> (\<forall>x\<in>set post'. bitrateOf lead x \<le> bitrateOf lead (foldl (better lead) g gs))"
    by (rule foldl_better_split[of "[g]" "[]" g "[]"]) auto
  then have a: "\<exists>pre best post. fs = pre @ best # post \<and> bestFormat lead fs = Some best
        \<and> (\<forall>x\<in>set pre. bitrateOf lead x < bitrateOf lead best)
        \<and> (\<forall>x\<in>set post. bitrateOf lead x \<le> bitrateOf lead best)"
    unfolding fs by auto
  have b: "\<bar>n\<bar> < 10 ^ 21 \<longrightarrow> bitrateOf lead (f\<lparr>audioBitrate := Some (Num (of_int n))\<rparr>) = n"
    by (simp add: bitrateOf_number integer_text towardZero_of_int)
  from a b show ?thesis
    by (simp add: bitrateOf_absent bitrateOf_number)
qed

text \<open>
  C4 on the bitrates 64, 160, 128, 160 (the second format is returned, not the fourth), on
  a missing field, and on the numbers 128.9, -1.5, \<open>10^21\<close> (text \<open>1e+21\<close>) and \<open>10^-7\<close> (text
  \<open>1e-7\<close>); of the bitrates \<open>10^21\<close> and 2 the second is selected.
\<close>

theorem bestFormat_first_maximum_witness:
  "exampleFormats \<noteq> []
   \<and> (\<exists>pre best post. exampleFormats = pre @ best # post
        \<and> bestFormat oneLead exampleFormats = Some best
        \<and> (\<forall>x\<in>set pre. bitrateOf oneLead x < bitrateOf oneLead best)
        \<and> (\<forall>x\<in>set post. bitrateOf oneLead x \<le> bitrateOf oneLead best))
   \<and> map (bitrateOf oneLead) exampleFormats = [64, 160, 128, 160]
   \<and> bestFormat oneLead exampleFormats = Some (exampleFormats ! 1)
   \<and> exampleFormats ! 1 \<noteq> exampleFormats ! 3
   \<and> bitrateOf oneLead (sampleFormat 5 None) = 0
   \<and> \<bar>160 :: int\<bar> < 10 ^ 21
   \<and> bitrateOf oneLead (sampleFormat 5 (Some (Num 160))) = 160
   \<and> \<not> exponentText (1289 / 10)
   \<and> bitrateOf oneLead (sampleFormat 5 (Some (Num (1289 / 10)))) = 128
   \<and> \<not> exponentText (- 3 / 2)
   \<and> bitrateOf oneLead (sampleFormat 5 (Some (Num (- 3 / 2)))) = - 1
   \<and> exponentText (10 ^ 21)
   \<and> bitrateOf oneLead (sampleFormat 5 (Some (Num (10 ^ 21)))) = 1
   \<and> exponentText (1 / 10 ^ 7)
   \<and> bitrateOf oneLead (sampleFormat 5 (Some (Num (1 / 10 ^ 7)))) = 1
   \<and> bestFormat oneLead [sampleFormat 1 (Some (Num (10 ^ 21))), sampleFormat 2 (Some (Num 2))]
       = Some (sampleFormat 2 (Some (Num 2)))"
proof -
  have ne: "exampleFormats \<noteq> []" by (simp add: exampleFormats_def)
  note t = bestFormat_first_maximum[OF ne, where lead = oneLead]
  have m: "map (bitrateOf oneLead) exampleFormats = [64, 160, 128, 160]"
    by (rule exampleFormats_bitrates)
  have b: "bestFormat oneLead exampleFormats = Some (exampleFormats ! 1)"
    by (simp add: exampleFormats_def sampleFormat_def better_def bitrateOf_def orZero_def
        parseInt_def exponentText_def towardZero_def)
  have d: "exampleFormats ! 1 \<noteq> exampleFormats ! 3"
    by (simp add: exampleFormats_def sampleFormat_def)
  have u: "sampleFormat 5 None\<lparr>audioBitrate := v\<rparr> = sampleFormat 5 v" for v
    by (simp add: sampleFormat_def)
  have z: "bitrateOf oneLead (sampleFormat 5 None) = 0"
    using t[of "sampleFormat 5 None"] by (simp add: u)
  have i1: "\<bar>160 :: int\<bar> < 10 ^ 21" by simp
  have i2: "bitrateOf oneLead (sampleFormat 5 (Some (Num 160))) = 160"
    using t[of "sampleFormat 5 None" 160] i1 by (simp add: u)
  have f1: "\<not> exponentText (1289 / 10)" by (simp add: exponentText_def)
  have "towardZero (1289 / 10) = 128" by (simp add: towardZero_def floor_eq_iff)
  with f1 have f2: "bitrateOf oneLead (sampleFormat 5 (Some (Num (1289 / 10)))) = 128"
    using t[of "sampleFormat 5 None" _ "1289 / 10"] by (simp add: u)
  have n1: "\<not> exponentText (- 3 / 2)" by (simp add: exponentText_def)
  have "towardZero (- 3 / 2) = - 1" by (simp add: towardZero_def ceiling_eq_iff)
  with n1 have n2: "bitrateOf oneLead (sampleFormat 5 (Some (Num (- 3 / 2)))) = - 1"
    using t[of "sampleFormat 5 None" _ "- 3 / 2"] by (simp add: u)
  have e1: "exponentText (10 ^ 21)" by (simp add: exponentText_def)
  then have e2: "bitrateOf oneLead (sampleFormat 5 (Some (Num (10 ^ 21)))) = 1"
    using t[of "sampleFormat 5 None" _ "10 ^ 21"] by (simp add: u oneLead_def)
  have s1: "exponentText (1 / 10 ^ 7)" by (simp add: exponentText_def)
  then have s2: "bitrateOf oneLead (sampleFormat 5 (Some (Num (1 / 10 ^ 7)))) = 1"
    using t[of "sampleFormat 5 None" _ "1 / 10 ^ 7"] by (simp add: u oneLead_def)
  have g: "bestFormat oneLead
      [sampleFormat 1 (Some (Num (10 ^ 21))), sampleFormat 2 (Some (Num 2))]
       = Some (sampleFormat 2 (Some (Num 2)))"
    by (simp add: sampleFormat_def better_def bitrateOf_def orZero_def parseInt_def
        exponentText_def towardZero_def oneLead_def)
  from ne t[of "sampleFormat 5 None"] m b d z i1 i2 f1 f2 n1 n2 e1 e2 s1 s2 g show ?thesis
    by (intro conjI) (simp_all only: simp_thms)
qed

section \<open>The cache\<close>

subsection \<open>The Map operations\<close>

lemma mapGet_mapSet: "mapGet k (mapSet k v m) = Some v"
  by (induction m) (auto simp: mapGet_def)

lemma mapGet_mapSet_other: "k' \<noteq> k \<Longrightarrow> mapGet k' (mapSet k v m) = mapGet k' m"
  by (induction m) (auto simp: mapGet_def)

lemma mapGet_None_iff: "mapGet k m = None \<longleftrightarrow> k \<notin> set (mapKeys m)"
  by (simp add: mapGet_def mapKeys_def map_of_eq_None_iff)

lemma mapSet_new: "k \<notin> set (mapKeys m) \<Longrightarrow> mapSet k v m = m @ [(k, v)]"
  by (induction m) (auto simp: mapKeys_def)

lemma mapKeys_mapSet_old: "k \<in> set (mapKeys m) \<Longrightarrow> mapKeys (mapSet k v m) = mapKeys m"
  by (induction m) (auto simp: mapKeys_def)

lemma length_mapSet_old: "k \<in> set (mapKeys m) \<Longrightarrow> length (mapSet k v m) = length m"
  by (induction m) (auto simp: mapKeys_def)

lemma mapGet_mapDelete_other: "k' \<noteq> k \<Longrightarrow> mapGet k' (mapDelete k m) = mapGet k' m"
  by (induction m) (auto simp: mapGet_def mapDelete_def)

lemma mapDelete_head: "distinct (mapKeys (p # ps)) \<Longrightarrow> mapDelete (fst p) (p # ps) = ps"
proof -
  assume "distinct (mapKeys (p # ps))"
  then have "fst p \<notin> fst ` set ps" by (simp add: mapKeys_def)
  then have "\<forall>q\<in>set ps. fst q \<noteq> fst p" by (metis imageI)
  then show ?thesis by (simp add: mapDelete_def)
qed

lemma mapKeys_mapDelete: "mapKeys (mapDelete k m) = filter (\<lambda>x. x \<noteq> k) (mapKeys m)"
  by (induction m) (auto simp: mapKeys_def mapDelete_def)

subsection \<open>The cache helper\<close>

lemma resolves_append [simp]: "resolves (t @ u) = resolves t + resolves u"
  by (simp add: resolves_def)

lemma resolves_simps [simp]:
  "resolves [] = 0" "resolves (e # t) = (if isResolve e then 1 else 0) + resolves t"
  by (simp_all add: resolves_def)

lemma lookup_hit:
  "mapGet videoId (videoInfoCache w) = Some c \<Longrightarrow> now w - timestamp c < CACHE_TTL \<Longrightarrow>
   lookupVideoInfo R videoUrl videoId w = (Hit (data c), logEvent (CacheGet videoId) w)"
  by (simp add: lookupVideoInfo_def Let_def)

lemma lookup_miss:
  "mapGet videoId (videoInfoCache w) = None
     \<or> (\<exists>c. mapGet videoId (videoInfoCache w) = Some c \<and> \<not> now w - timestamp c < CACHE_TTL) \<Longrightarrow>
   R (resolves (trace w)) videoUrl = (dt, r) \<Longrightarrow>
   lookupVideoInfo R videoUrl videoId w =
     (Awaiting dt r, logEvent (Resolve videoUrl) (logEvent (CacheGet videoId) w))"
  by (auto simp: lookupVideoInfo_def Let_def requestInfo_def logEvent_def)

lemma getCached_hit:
  "mapGet videoId (videoInfoCache w) = Some c \<Longrightarrow> now w - timestamp c < CACHE_TTL \<Longrightarrow>
   getCachedVideoInfo R videoUrl videoId w = (Inr (data c), logEvent (CacheGet videoId) w)"
  by (simp add: getCachedVideoInfo_def lookup_hit)

lemma getCached_miss:
  "mapGet videoId (videoInfoCache w) = None
     \<or> (\<exists>c. mapGet videoId (videoInfoCache w) = Some c \<and> \<not> now w - timestamp c < CACHE_TTL) \<Longrightarrow>
   R (resolves (trace w)) videoUrl = (dt, r) \<Longrightarrow>
   getCachedVideoInfo R videoUrl videoId w =
     resumeVideoInfo videoId r
       (elapse dt (logEvent (Resolve videoUrl) (logEvent (CacheGet videoId) w)))"
  by (simp add: getCachedVideoInfo_def lookup_miss)

text \<open>Storing under a key: the entry is there afterwards, whether or not one is evicted.\<close>

lemma store_new_key:
  assumes "mapGet k (videoInfoCache w) = None"
  shows "videoInfoCache (storeVideoInfo k info w) =
           (if length (videoInfoCache w) \<ge> 1000
            then mapDelete (fst (hd (videoInfoCache w))) (videoInfoCache w)
            else videoInfoCache w) @ [(k, \<lparr>data = info, timestamp = now w\<rparr>)]"
proof -
  let ?e = "\<lparr>data = info, timestamp = now w\<rparr>"
  from assms have nk: "k \<notin> set (mapKeys (videoInfoCache w))" by (simp add: mapGet_None_iff)
  then have set: "mapSet k ?e (videoInfoCache w) = videoInfoCache w @ [(k, ?e)]"
    by (rule mapSet_new)
  show ?thesis
  proof (cases "videoInfoCache w")
    case Nil
    then show ?thesis by (simp add: storeVideoInfo_def evictOldest_def logEvent_def)
  next
    case (Cons p ps)
    with nk have "fst p \<noteq> k" by (auto simp: mapKeys_def)
    with Cons set show ?thesis
      by (auto simp: storeVideoInfo_def evictOldest_def logEvent_def mapDelete_def)
  qed
qed

lemma store_old_key:
  assumes "k \<in> set (mapKeys (videoInfoCache w))" "length (videoInfoCache w) \<le> 1000"
  shows "videoInfoCache (storeVideoInfo k info w) =
           mapSet k \<lparr>data = info, timestamp = now w\<rparr> (videoInfoCache w)"
  using assms by (simp add: storeVideoInfo_def evictOldest_def logEvent_def length_mapSet_old)

lemma store_mapGet:
  assumes "length (videoInfoCache w) \<le> 1000"
  shows "mapGet k (videoInfoCache (storeVideoInfo k info w)) = Some \<lparr>data = info, timestamp = now w\<rparr>"
proof (cases "k \<in> set (mapKeys (videoInfoCache w))")
  case True
  with assms show ?thesis by (simp add: store_old_key mapGet_mapSet)
next
  case False
  then have n: "mapGet k (videoInfoCache w) = None" by (simp add: mapGet_None_iff)
  have "mapGet k (m @ [(k, v)]) = Some v" if "k \<notin> set (mapKeys m)" for m :: "(jsstring \<times> entry) list" and v
    using that by (induction m) (auto simp: mapGet_def mapKeys_def)
  moreover have "k \<notin> set (mapKeys (mapDelete k' (videoInfoCache w)))" for k'
    using False by (simp add: mapKeys_mapDelete)
  ultimately show ?thesis using False by (simp add: store_new_key[OF n])
qed

lemma store_trace_resolves [simp]: "resolves (trace (storeVideoInfo k info w)) = resolves (trace w)"
  by (auto simp: storeVideoInfo_def evictOldest_def logEvent_def split: list.splits)

lemma store_now [simp]: "now (storeVideoInfo k info w) = now w"
  by (auto simp: storeVideoInfo_def evictOldest_def logEvent_def split: list.splits)

lemma store_cacheOk: "cacheOk w \<Longrightarrow> cacheOk (storeVideoInfo k info w)"
proof (cases "k \<in> set (mapKeys (videoInfoCache w))")
  case True
  assume "cacheOk w"
  with True show ?thesis
    by (simp add: cacheOk_def store_old_key mapKeys_mapSet_old length_mapSet_old)
next
  case False
  assume ok: "cacheOk w"
  from False have n: "mapGet k (videoInfoCache w) = None" by (simp add: mapGet_None_iff)
  show ?thesis
  proof (cases "videoInfoCache w")
    case Nil
    then show ?thesis by (simp add: cacheOk_def store_new_key[OF n] mapKeys_def)
  next
    case (Cons p ps)
    with ok have d: "distinct (mapKeys (p # ps))" by (simp add: cacheOk_def)
    have del: "mapDelete (fst p) (p # ps) = ps" by (rule mapDelete_head[OF d])
    from False Cons have "k \<notin> set (mapKeys (p # ps))" by simp
    with d ok Cons del show ?thesis
      by (auto simp: cacheOk_def store_new_key[OF n] mapKeys_def)
  qed
qed


lemma resume_cacheOk: "cacheOk w \<Longrightarrow> cacheOk (snd (resumeVideoInfo k r w))"
  by (cases r) (simp_all add: resumeVideoInfo_def store_cacheOk)

lemma cacheOk_trace_now [simp]:
  "cacheOk (logEvent e w) = cacheOk w" "cacheOk (elapse dt w) = cacheOk w"
  by (simp_all add: cacheOk_def logEvent_def elapse_def)

lemma getCached_cacheOk:
  "cacheOk w \<Longrightarrow> cacheOk (snd (getCachedVideoInfo R videoUrl videoId w))"
  by (auto simp: getCachedVideoInfo_def lookupVideoInfo_def Let_def requestInfo_def
      resume_cacheOk split: option.splits prod.splits lookup.splits)

text \<open>
  Claim C5. In a world whose cache is well-formed: a lookup that finds an entry with
  \<open>now - timestamp < 10 minutes\<close> returns its metadata, calls the resolver not at all and
  leaves the cache as it is; a lookup that finds no entry, or one with
  \<open>now - timestamp \<ge> 10 minutes\<close>, calls the resolver exactly once and, when the resolver
  answers, returns the answer and has it stored under the identifier with the time of the
  store as timestamp; when the resolver fails, the failure is returned and the cache is
  unchanged.
\<close>

theorem getCachedVideoInfo_hit_or_resolve:
  assumes ok: "cacheOk w"
  shows "(\<forall>c. mapGet videoId (videoInfoCache w) = Some c \<and> now w - timestamp c < 10 * 60 * 1000 \<longrightarrow>
            (\<exists>w'. getCachedVideoInfo R videoUrl videoId w = (Inr (data c), w')
               \<and> resolves (trace w') = resolves (trace w)
               \<and> videoInfoCache w' = videoInfoCache w))
       \<and> (mapGet videoId (videoInfoCache w) = None
            \<or> (\<exists>c. mapGet videoId (videoInfoCache w) = Some c \<and> now w - timestamp c \<ge> 10 * 60 * 1000) \<longrightarrow>
          (\<forall>dt info. R (resolves (trace w)) videoUrl = (dt, Inr info) \<longrightarrow>
            (\<exists>w'. getCachedVideoInfo R videoUrl videoId w = (Inr info, w')
               \<and> resolves (trace w') = resolves (trace w) + 1
               \<and> now w' = now w + dt
               \<and> mapGet videoId (videoInfoCache w') = Some \<lparr>data = info, timestamp = now w'\<rparr>))
        \<and> (\<forall>dt e. R (resolves (trace w)) videoUrl = (dt, Inl e) \<longrightarrow>
            (\<exists>w'. getCachedVideoInfo R videoUrl videoId w = (Inl e, w')
               \<and> resolves (trace w') = resolves (trace w) + 1
               \<and> videoInfoCache w' = videoInfoCache w)))"
proof (intro conjI allI impI)
  fix c
  assume "mapGet videoId (videoInfoCache w) = Some c \<and> now w - timestamp c < 10 * 60 * 1000"
  then have "getCachedVideoInfo R videoUrl videoId w = (Inr (data c), logEvent (CacheGet videoId) w)"
    by (intro getCached_hit) (simp_all add: CACHE_TTL_def)
  then show "\<exists>w'. getCachedVideoInfo R videoUrl videoId w = (Inr (data c), w')
               \<and> resolves (trace w') = resolves (trace w)
               \<and> videoInfoCache w' = videoInfoCache w"
    by (simp add: logEvent_def)
next
  fix dt info
  assume miss: "mapGet videoId (videoInfoCache w) = None
      \<or> (\<exists>c. mapGet videoId (videoInfoCache w) = Some c \<and> now w - timestamp c \<ge> 10 * 60 * 1000)"
    and r: "R (resolves (trace w)) videoUrl = (dt, Inr info)"
  let ?w1 = "elapse dt (logEvent (Resolve videoUrl) (logEvent (CacheGet videoId) w))"
  from miss have miss': "mapGet videoId (videoInfoCache w) = None
     \<or> (\<exists>c. mapGet videoId (videoInfoCache w) = Some c \<and> \<not> now w - timestamp c < CACHE_TTL)"
    by (auto simp: CACHE_TTL_def)
  have g: "getCachedVideoInfo R videoUrl videoId w = (Inr info, storeVideoInfo videoId info ?w1)"
    by (simp add: getCached_miss[where R = R, OF miss' r] resumeVideoInfo_def)
  have len: "length (videoInfoCache ?w1) \<le> 1000"
    using ok by (simp add: cacheOk_def logEvent_def elapse_def)
  have "resolves (trace (storeVideoInfo videoId info ?w1)) = resolves (trace w) + 1"
    by (simp add: logEvent_def elapse_def)
  moreover have "now (storeVideoInfo videoId info ?w1) = now w + dt"
    by (simp add: logEvent_def elapse_def)
  moreover have "mapGet videoId (videoInfoCache (storeVideoInfo videoId info ?w1))
      = Some \<lparr>data = info, timestamp = now (storeVideoInfo videoId info ?w1)\<rparr>"
    by (simp add: store_mapGet[OF len])
  ultimately show "\<exists>w'. getCachedVideoInfo R videoUrl videoId w = (Inr info, w')
               \<and> resolves (trace w') = resolves (trace w) + 1
               \<and> now w' = now w + dt
               \<and> mapGet videoId (videoInfoCache w') = Some \<lparr>data = info, timestamp = now w'\<rparr>"
    using g by blast
next
  fix dt e
  assume miss: "mapGet videoId (videoInfoCache w) = None
      \<or> (\<exists>c. mapGet videoId (videoInfoCache w) = Some c \<and> now w - timestamp c \<ge> 10 * 60 * 1000)"
    and r: "R (resolves (trace w)) videoUrl = (dt, Inl e)"
  from miss have miss': "mapGet videoId (videoInfoCache w) = None
     \<or> (\<exists>c. mapGet videoId (videoInfoCache w) = Some c \<and> \<not> now w - timestamp c < CACHE_TTL)"
    by (auto simp: CACHE_TTL_def)
  show "\<exists>w'. getCachedVideoInfo R videoUrl videoId w = (Inl e, w')
               \<and> resolves (trace w') = resolves (trace w) + 1
               \<and> videoInfoCache w' = videoInfoCache w"
    by (simp add: getCached_miss[where R = R, OF miss' r] resumeVideoInfo_def logEvent_def elapse_def)
qed

lemmas sample_defs = sampleFormat_def sampleDetails_def sampleInfo_def silentInfo_def world0_def
  alwaysOk_def alwaysSilent_def neverOk_def failsOnce_def noUuid_def sampleEntry_def warmWorld_def

text \<open>
  The three cases of C5 at work: a fresh entry (stored at 0, read at 1000), an expired one
  (read at 600000), an empty cache, and a resolver that fails.
\<close>

theorem getCachedVideoInfo_hit_or_resolve_witness:
  "cacheOk (warmWorld 1000) \<and> cacheOk (warmWorld 600000) \<and> cacheOk world0
   \<and> fst (getCachedVideoInfo alwaysOk (watchUrl (js ''dQw4w9WgXcQ'')) (js ''dQw4w9WgXcQ'')
          (warmWorld 1000)) = Inr sampleInfo
   \<and> resolves (trace (snd (getCachedVideoInfo alwaysOk (watchUrl (js ''dQw4w9WgXcQ''))
          (js ''dQw4w9WgXcQ'') (warmWorld 1000)))) = 0
   \<and> resolves (trace (snd (getCachedVideoInfo alwaysOk (watchUrl (js ''dQw4w9WgXcQ''))
          (js ''dQw4w9WgXcQ'') (warmWorld 600000)))) = 1
   \<and> mapGet (js ''dQw4w9WgXcQ'') (videoInfoCache (snd (getCachedVideoInfo alwaysOk
          (watchUrl (js ''dQw4w9WgXcQ'')) (js ''dQw4w9WgXcQ'') (warmWorld 600000))))
       = Some \<lparr>data = sampleInfo, timestamp = 600050\<rparr>
   \<and> resolves (trace (snd (getCachedVideoInfo alwaysOk (watchUrl (js ''dQw4w9WgXcQ''))
          (js ''dQw4w9WgXcQ'') world0))) = 1
   \<and> mapGet (js ''dQw4w9WgXcQ'') (videoInfoCache (snd (getCachedVideoInfo alwaysOk
          (watchUrl (js ''dQw4w9WgXcQ'')) (js ''dQw4w9WgXcQ'') world0)))
       = Some \<lparr>data = sampleInfo, timestamp = 50\<rparr>
   \<and> fst (getCachedVideoInfo neverOk (watchUrl (js ''dQw4w9WgXcQ'')) (js ''dQw4w9WgXcQ'')
          world0) = Inl (js ''Video unavailable'')"
proof -
  let ?k = "js ''dQw4w9WgXcQ''"
  let ?u = "watchUrl ?k"
  have ok1: "cacheOk (warmWorld 1000)" and ok2: "cacheOk (warmWorld 600000)"
    and ok0: "cacheOk world0"
    by (simp_all add: cacheOk_def warmWorld_def world0_def mapKeys_def)
  have hit: "mapGet ?k (videoInfoCache (warmWorld 1000)) = Some (sampleEntry 0)
      \<and> now (warmWorld 1000) - timestamp (sampleEntry 0) < 10 * 60 * 1000"
    by (simp add: warmWorld_def mapGet_def sampleEntry_def)
  have stale: "mapGet ?k (videoInfoCache (warmWorld 600000)) = None
      \<or> (\<exists>c. mapGet ?k (videoInfoCache (warmWorld 600000)) = Some c
            \<and> now (warmWorld 600000) - timestamp c \<ge> 10 * 60 * 1000)"
    by (simp add: warmWorld_def mapGet_def sampleEntry_def)
  have miss: "mapGet ?k (videoInfoCache world0) = None
      \<or> (\<exists>c. mapGet ?k (videoInfoCache world0) = Some c
            \<and> now world0 - timestamp c \<ge> 10 * 60 * 1000)"
    by (simp add: world0_def mapGet_def)
  have r1: "alwaysOk (resolves (trace (warmWorld 600000))) ?u = (50, Inr sampleInfo)"
    and r2: "alwaysOk (resolves (trace world0)) ?u = (50, Inr sampleInfo)"
    and r3: "neverOk (resolves (trace world0)) ?u = (50, Inl (js ''Video unavailable''))"
    by (simp_all add: alwaysOk_def neverOk_def)
  from getCachedVideoInfo_hit_or_resolve[OF ok1, of ?k alwaysOk ?u] hit
  obtain w1 where "getCachedVideoInfo alwaysOk ?u ?k (warmWorld 1000) = (Inr (data (sampleEntry 0)), w1)"
    "resolves (trace w1) = resolves (trace (warmWorld 1000))"
    by blast
  then have a: "fst (getCachedVideoInfo alwaysOk ?u ?k (warmWorld 1000)) = Inr sampleInfo"
    "resolves (trace (snd (getCachedVideoInfo alwaysOk ?u ?k (warmWorld 1000)))) = 0"
    by (simp_all add: sampleEntry_def warmWorld_def)
  from getCachedVideoInfo_hit_or_resolve[OF ok2, of ?k alwaysOk ?u] stale r1
  obtain w2 where "getCachedVideoInfo alwaysOk ?u ?k (warmWorld 600000) = (Inr sampleInfo, w2)"
    "resolves (trace w2) = resolves (trace (warmWorld 600000)) + 1"
    "now w2 = now (warmWorld 600000) + 50"
    "mapGet ?k (videoInfoCache w2) = Some \<lparr>data = sampleInfo, timestamp = now w2\<rparr>"
    by blast
  then have b: "resolves (trace (snd (getCachedVideoInfo alwaysOk ?u ?k (warmWorld 600000)))) = 1"
    "mapGet ?k (videoInfoCache (snd (getCachedVideoInfo alwaysOk ?u ?k (warmWorld 600000))))
       = Some \<lparr>data = sampleInfo, timestamp = 600050\<rparr>"
    by (simp_all add: warmWorld_def)
  from getCachedVideoInfo_hit_or_resolve[OF ok0, of ?k alwaysOk ?u] miss r2
  obtain w3 where "getCachedVideoInfo alwaysOk ?u ?k world0 = (Inr sampleInfo, w3)"
    "resolves (trace w3) = resolves (trace world0) + 1"
    "now w3 = now world0 + 50"
    "mapGet ?k (videoInfoCache w3) = Some \<lparr>data = sampleInfo, timestamp = now w3\<rparr>"
    by blast
  then have c: "resolves (trace (snd (getCachedVideoInfo alwaysOk ?u ?k world0))) = 1"
    "mapGet ?k (videoInfoCache (snd (getCachedVideoInfo alwaysOk ?u ?k world0)))
       = Some \<lparr>data = sampleInfo, timestamp = 50\<rparr>"
    by (simp_all add: world0_def)
  from getCachedVideoInfo_hit_or_resolve[OF ok0, of ?k neverOk ?u] miss r3
  obtain w4 where "getCachedVideoInfo neverOk ?u ?k world0 = (Inl (js ''Video unavailable''), w4)"
    by blast
  then have d: "fst (getCachedVideoInfo neverOk ?u ?k world0) = Inl (js ''Video unavailable'')"
    by simp
  from ok1 ok2 ok0 a b c d show ?thesis by blast
qed

subsection \<open>Eviction\<close>

lemma three_digits:
  assumes "(i::nat) < 1000"
  shows "i = 100 * (i div 100 mod 10) + (10 * (i div 10 mod 10) + i mod 10)"
proof -
  from assms have "i div 100 < 10" by (simp only: less_mult_imp_div_less[of i 10 100, simplified])
  then have a: "i div 100 mod 10 = i div 100" by (rule mod_less)
  have b: "i mod 100 = 10 * (i div 10 mod 10) + i mod 10"
    using mod_mult2_eq[of i 10 10] by (simp only: mult.commute[of 10 10, simplified] numeral_times_numeral semiring_norm num.simps)
  have c: "i = 100 * (i div 100) + i mod 100" by (rule mult_div_mod_eq[symmetric])
  show ?thesis by (subst c) (simp only: a b)
qed

lemma sampleKey_inj: "i < 1000 \<Longrightarrow> j < 1000 \<Longrightarrow> sampleKey i = sampleKey j \<Longrightarrow> i = j"
proof -
  assume i: "i < 1000" and j: "j < 1000" and e: "sampleKey i = sampleKey j"
  from e have "i div 100 mod 10 = j div 100 mod 10 \<and> i div 10 mod 10 = j div 10 mod 10
    \<and> i mod 10 = j mod 10"
    by (simp only: sampleKey_def same_append_eq list.inject add_left_cancel simp_thms)
  then show "i = j"
    by (subst three_digits[OF i], subst three_digits[OF j]) (simp only:)
qed


lemma fullCache_keys: "mapKeys fullCache = map sampleKey [0..<1000]"
  by (simp add: fullCache_def mapKeys_def comp_def)

lemma fullCache_length: "length fullCache = 1000"
  by (simp add: fullCache_def)

lemma fullWorld_ok: "cacheOk fullWorld"
proof -
  have "inj_on sampleKey (set [0..<1000])"
    by (rule inj_onI) (simp add: sampleKey_inj)
  then have "distinct (map sampleKey [0..<1000])" by (simp add: distinct_map del: set_upt)
  then show ?thesis by (simp add: cacheOk_def fullWorld_def fullCache_keys fullCache_length)
qed

lemma fullCache_new: "mapGet (js ''dQw4w9WgXcQ'') fullCache = None"
  by (simp add: mapGet_None_iff fullCache_keys sampleKey_def js_def image_iff)

lemma fullCache_Cons:
  "fullCache = (sampleKey 0, sampleEntry 0) #
     map (\<lambda>i. (sampleKey i, sampleEntry (int i))) [Suc 0..<1000]"
  unfolding fullCache_def by (subst upt_conv_Cons) simp_all

lemma fullCache_oldest: "mapGet (sampleKey 0) fullCache = Some (sampleEntry 0)"
  by (subst fullCache_Cons) (simp add: mapGet_def)

text \<open>
  Claim C6. The cache list is in the order of the \<open>Map\<close>: a new key goes to the end
  (\<open>mapSet_new\<close>), a key that is present keeps its place when it is set again
  (\<open>mapKeys_mapSet_old\<close>), and a deletion keeps the order of the others
  (\<open>mapKeys_mapDelete\<close>); so the head is the key inserted longest ago. When the cache
  holds 1000 entries and a new identifier is resolved, the head is the entry that goes,
  the new entry is appended, and the cache holds at most 1000 entries again. A read that
  hits leaves the list, and so every entry's place in it, as it was.
\<close>

theorem cache_evicts_oldest_inserted:
  assumes ok: "cacheOk w" and full: "length (videoInfoCache w) = 1000"
    and new: "mapGet videoId (videoInfoCache w) = None"
    and r: "R (resolves (trace w)) videoUrl = (dt, Inr info)"
  shows "videoInfoCache (snd (getCachedVideoInfo R videoUrl videoId w)) =
           tl (videoInfoCache w) @ [(videoId, \<lparr>data = info, timestamp = now w + dt\<rparr>)]
       \<and> length (videoInfoCache (snd (getCachedVideoInfo R videoUrl videoId w))) \<le> 1000
       \<and> mapGet (fst (hd (videoInfoCache w)))
            (videoInfoCache (snd (getCachedVideoInfo R videoUrl videoId w))) = None
       \<and> (\<forall>k c u. mapGet k (videoInfoCache w) = Some c \<and> now w - timestamp c < 10 * 60 * 1000 \<longrightarrow>
            videoInfoCache (snd (getCachedVideoInfo R u k w)) = videoInfoCache w
            \<and> resolves (trace (snd (getCachedVideoInfo R u k w))) = resolves (trace w))"
proof -
  let ?w1 = "elapse dt (logEvent (Resolve videoUrl) (logEvent (CacheGet videoId) w))"
  let ?e = "\<lparr>data = info, timestamp = now w + dt\<rparr>"
  from full obtain p ps where c: "videoInfoCache w = p # ps" by (cases "videoInfoCache w") auto
  from ok c have d: "distinct (mapKeys (p # ps))" by (simp add: cacheOk_def)
  have g: "getCachedVideoInfo R videoUrl videoId w = (Inr info, storeVideoInfo videoId info ?w1)"
    using new r by (simp add: getCached_miss[where R = R] resumeVideoInfo_def)
  have n1: "mapGet videoId (videoInfoCache ?w1) = None"
    using new by (simp add: logEvent_def elapse_def)
  have "videoInfoCache (storeVideoInfo videoId info ?w1) = ps @ [(videoId, ?e)]"
    using full c mapDelete_head[OF d] by (simp add: store_new_key[OF n1]) (simp add: logEvent_def elapse_def)
  with g c have a: "videoInfoCache (snd (getCachedVideoInfo R videoUrl videoId w)) =
           tl (videoInfoCache w) @ [(videoId, ?e)]" by simp
  have b: "length (videoInfoCache (snd (getCachedVideoInfo R videoUrl videoId w))) \<le> 1000"
    using full by (simp add: a)
  from new c have "fst p \<noteq> videoId" by (auto simp: mapGet_None_iff mapKeys_def)
  moreover from d have "fst p \<notin> set (mapKeys ps)" by (simp add: mapKeys_def)
  ultimately have "fst p \<notin> set (mapKeys (ps @ [(videoId, ?e)]))" by (simp add: mapKeys_def)
  then have e: "mapGet (fst (hd (videoInfoCache w)))
            (videoInfoCache (snd (getCachedVideoInfo R videoUrl videoId w))) = None"
    using c by (simp add: a mapGet_None_iff)
  have h: "\<forall>k c u. mapGet k (videoInfoCache w) = Some c \<and> now w - timestamp c < 10 * 60 * 1000 \<longrightarrow>
            videoInfoCache (snd (getCachedVideoInfo R u k w)) = videoInfoCache w
            \<and> resolves (trace (snd (getCachedVideoInfo R u k w))) = resolves (trace w)"
    by (auto simp: getCached_hit CACHE_TTL_def logEvent_def)
  from a b e h show ?thesis by blast
qed

text \<open>
  C6 on a cache of 1000 entries: reading the oldest entry does not save it from being the
  one evicted by the next insertion.
\<close>

theorem cache_evicts_oldest_inserted_witness:
  "cacheOk fullWorld \<and> length (videoInfoCache fullWorld) = 1000
   \<and> mapGet (js ''dQw4w9WgXcQ'') (videoInfoCache fullWorld) = None
   \<and> alwaysOk (resolves (trace fullWorld)) (watchUrl (js ''dQw4w9WgXcQ'')) = (50, Inr sampleInfo)
   \<and> mapGet (sampleKey 0) (videoInfoCache fullWorld) = Some (sampleEntry 0)
   \<and> now fullWorld - timestamp (sampleEntry 0) < 10 * 60 * 1000
   \<and> fst (hd (videoInfoCache fullWorld)) = sampleKey 0
   \<and> videoInfoCache (snd (getCachedVideoInfo alwaysOk (watchUrl (sampleKey 0)) (sampleKey 0)
         fullWorld)) = videoInfoCache fullWorld
   \<and> videoInfoCache (snd (getCachedVideoInfo alwaysOk (watchUrl (js ''dQw4w9WgXcQ''))
         (js ''dQw4w9WgXcQ'') fullWorld))
       = tl fullCache @ [(js ''dQw4w9WgXcQ'', \<lparr>data = sampleInfo, timestamp = 1050\<rparr>)]
   \<and> mapGet (sampleKey 0) (videoInfoCache (snd (getCachedVideoInfo alwaysOk
         (watchUrl (js ''dQw4w9WgXcQ'')) (js ''dQw4w9WgXcQ'') fullWorld))) = None"
proof -
  let ?k = "js ''dQw4w9WgXcQ''"
  have full: "length (videoInfoCache fullWorld) = 1000"
    by (simp add: fullWorld_def fullCache_length)
  have new: "mapGet ?k (videoInfoCache fullWorld) = None"
    using fullCache_new by (simp add: fullWorld_def)
  have r: "alwaysOk (resolves (trace fullWorld)) (watchUrl ?k) = (50, Inr sampleInfo)"
    by (simp add: alwaysOk_def)
  have old: "mapGet (sampleKey 0) (videoInfoCache fullWorld) = Some (sampleEntry 0)"
    using fullCache_oldest by (simp add: fullWorld_def)
  have fresh: "now fullWorld - timestamp (sampleEntry 0) < 10 * 60 * 1000"
    by (simp add: fullWorld_def sampleEntry_def)
  have hd: "fst (hd (videoInfoCache fullWorld)) = sampleKey 0"
    by (simp add: fullWorld_def) (subst fullCache_Cons, simp)
  note t = cache_evicts_oldest_inserted[where R = alwaysOk, OF fullWorld_ok full new r]
  from t old fresh have read:
    "videoInfoCache (snd (getCachedVideoInfo alwaysOk (watchUrl (sampleKey 0)) (sampleKey 0)
         fullWorld)) = videoInfoCache fullWorld"
    by blast
  from t have ins: "videoInfoCache (snd (getCachedVideoInfo alwaysOk (watchUrl ?k) ?k fullWorld))
       = tl fullCache @ [(?k, \<lparr>data = sampleInfo, timestamp = 1050\<rparr>)]"
    by (simp add: fullWorld_def)
  from t have "mapGet (fst (hd (videoInfoCache fullWorld)))
      (videoInfoCache (snd (getCachedVideoInfo alwaysOk (watchUrl ?k) ?k fullWorld))) = None"
    by blast
  then have gone: "mapGet (sampleKey 0) (videoInfoCache (snd (getCachedVideoInfo alwaysOk
         (watchUrl ?k) ?k fullWorld))) = None"
    by (simp only: hd)
  from fullWorld_ok full new r old fresh hd read ins gone show ?thesis by blast
qed

section \<open>The video-info and download responses\<close>

lemma valid_sample_id: "validateVideoId (js ''dQw4w9WgXcQ'')"
  by (simp add: validateVideoId_def js_def cls)

lemma mapHas_iff: "mapHas k m \<longleftrightarrow> k \<in> set (mapKeys m)"
  by (simp add: mapHas_def mapKeys_def)

lemma store_mapHas_new:
  "mapGet k (videoInfoCache w) = None \<Longrightarrow> mapHas k (videoInfoCache (storeVideoInfo k info w))"
  by (simp add: store_new_key mapHas_iff mapKeys_def)

text \<open>
  Claim C9. On the first request for a valid identifier, when the cache has no entry for
  it and the resolver answers, the resolver is called (a miss) and the response of
  \<open>GET /video-info\<close> still says \<open>cached: true\<close>: the helper has stored the entry before
  the handler asks the cache whether it has the identifier.
\<close>

theorem video_info_cached_after_miss:
  assumes valid: "validateVideoId videoId"
    and miss: "mapGet videoId (videoInfoCache w) = None"
    and r: "R (resolves (trace w)) (watchUrl videoId) = (dt, Inr info)"
  shows "fst (video_info R videoId w) =
           sendJson 200
             (VideoInfoBody (Some videoId) (videoDetails info)
                (describe 300 (description (videoDetails info))) (Some True)) res0
       \<and> resolves (trace (snd (video_info R videoId w))) = resolves (trace w) + 1"
proof -
  let ?w1 = "elapse dt (logEvent (Resolve (watchUrl videoId)) (logEvent (CacheGet videoId) w))"
  have g: "getCachedVideoInfo R (watchUrl videoId) videoId w
      = (Inr info, storeVideoInfo videoId info ?w1)"
    using miss r by (simp add: getCached_miss[where R = R] resumeVideoInfo_def)
  have "mapGet videoId (videoInfoCache ?w1) = None"
    using miss by (simp add: logEvent_def elapse_def)
  then have h: "mapHas videoId (videoInfoCache (storeVideoInfo videoId info ?w1))"
    by (rule store_mapHas_new)
  have t: "resolves (trace (logEvent (CacheHas videoId) (storeVideoInfo videoId info ?w1)))
      = resolves (trace w) + 1"
    by (simp add: logEvent_def[of "CacheHas videoId"]) (simp add: logEvent_def elapse_def)
  from valid g h t show ?thesis by (simp add: video_info_def)
qed

text \<open>C9 on an empty cache.\<close>

theorem video_info_cached_after_miss_witness:
  "validateVideoId (js ''dQw4w9WgXcQ'')
   \<and> mapGet (js ''dQw4w9WgXcQ'') (videoInfoCache world0) = None
   \<and> alwaysOk (resolves (trace world0)) (watchUrl (js ''dQw4w9WgXcQ'')) = (50, Inr sampleInfo)
   \<and> body (fst (video_info alwaysOk (js ''dQw4w9WgXcQ'') world0)) =
        VideoInfoBody (Some (js ''dQw4w9WgXcQ'')) sampleDetails (js ''undefined...'') (Some True)
   \<and> resolves (trace (snd (video_info alwaysOk (js ''dQw4w9WgXcQ'') world0))) = 1"
proof -
  have miss: "mapGet (js ''dQw4w9WgXcQ'') (videoInfoCache world0) = None"
    by (simp add: world0_def mapGet_def)
  have r: "alwaysOk (resolves (trace world0)) (watchUrl (js ''dQw4w9WgXcQ'')) = (50, Inr sampleInfo)"
    by (simp add: alwaysOk_def)
  note t = video_info_cached_after_miss[where R = alwaysOk, OF valid_sample_id miss r]
  from t have "body (fst (video_info alwaysOk (js ''dQw4w9WgXcQ'') world0)) =
        VideoInfoBody (Some (js ''dQw4w9WgXcQ'')) sampleDetails (js ''undefined...'') (Some True)"
    by (simp add: sendJson_def res0_def sampleInfo_def sampleDetails_def describe_def js_def)
  moreover from t have "resolves (trace (snd (video_info alwaysOk (js ''dQw4w9WgXcQ'') world0))) = 1"
    by (simp add: world0_def)
  ultimately show ?thesis using valid_sample_id miss r by blast
qed

subsection \<open>Headers of the error response\<close>

lemma setHeaders_download:
  "headers (setHeaders (downloadHeaders t) res0) =
     [(''Content-Type'', js ''audio/mpeg''), (''Content-Disposition'', attachment t),
      (''Access-Control-Allow-Origin'', js ''*''), (''Cache-Control'', js ''no-cache''),
      (''Connection'', js ''keep-alive'')]"
  by (simp add: setHeaders_def downloadHeaders_def res0_def)

lemma setHeaders_download_index:
  "headers (setHeaders (downloadHeaders_index t) res0) =
     [(''Content-Type'', js ''audio/mpeg''), (''Content-Disposition'', attachment t),
      (''Access-Control-Allow-Origin'', js ''*'')]"
  by (simp add: setHeaders_def downloadHeaders_index_def res0_def)

text \<open>
  Claim C10. In the streaming download handler of either server, when the metadata has no
  audio-only format, the 400 response with the error \<open>No audio formats available\<close> is
  sent on the response object on which the handler has already set the download headers:
  \<open>Content-Type: audio/mpeg\<close>, \<open>Content-Disposition: attachment; filename="....mp3"\<close>
  with the sanitized title (34 is the code unit of the double quote) and the others.
\<close>

theorem no_audio_error_carries_download_headers:
  assumes valid: "validateVideoId videoId"
    and none: "filterFormats (formats info) AudioOnly = []"
  shows "(fst (getCachedVideoInfo R (watchUrl videoId) videoId w) = Inr info \<longrightarrow>
            fst (download_mp3 R videoId bitrateQuery w) =
              \<lparr>status = 400,
               headers =
                 [(''Content-Type'', js ''audio/mpeg''),
                  (''Content-Disposition'',
                   js ''attachment; filename='' @ [34]
                     @ sanitizeFilename (title (videoDetails info)) @ js ''.mp3'' @ [34]),
                  (''Access-Control-Allow-Origin'', js ''*''),
                  (''Cache-Control'', js ''no-cache''),
                  (''Connection'', js ''keep-alive'')],
               body = ErrorBody (js ''No audio formats available'') None\<rparr>)
       \<and> (fst (retryLoop R (watchUrl videoId) 3 w) = Inr (Some info) \<longrightarrow>
            fst (download_mp3_index R videoId w) =
              \<lparr>status = 400,
               headers =
                 [(''Content-Type'', js ''audio/mpeg''),
                  (''Content-Disposition'',
                   js ''attachment; filename='' @ [34]
                     @ sanitizeFilename_index (title (videoDetails info)) @ js ''.mp3'' @ [34]),
                  (''Access-Control-Allow-Origin'', js ''*'')],
               body = ErrorBody (js ''No audio formats available for this video'') None\<rparr>)"
proof (intro conjI impI)
  assume "fst (getCachedVideoInfo R (watchUrl videoId) videoId w) = Inr info"
  then obtain w1 where "getCachedVideoInfo R (watchUrl videoId) videoId w = (Inr info, w1)"
    by (cases "getCachedVideoInfo R (watchUrl videoId) videoId w") auto
  with valid none show "fst (download_mp3 R videoId bitrateQuery w) =
              \<lparr>status = 400,
               headers =
                 [(''Content-Type'', js ''audio/mpeg''),
                  (''Content-Disposition'',
                   js ''attachment; filename='' @ [34]
                     @ sanitizeFilename (title (videoDetails info)) @ js ''.mp3'' @ [34]),
                  (''Access-Control-Allow-Origin'', js ''*''),
                  (''Cache-Control'', js ''no-cache''),
                  (''Connection'', js ''keep-alive'')],
               body = ErrorBody (js ''No audio formats available'') None\<rparr>"
    using setHeaders_download[of "sanitizeFilename (title (videoDetails info))"]
    by (simp add: download_mp3_def Let_def noAudio_def sendJson_def setHeaders_def res0_def
        attachment_def)
next
  assume "fst (retryLoop R (watchUrl videoId) 3 w) = Inr (Some info)"
  then obtain w1 where "retryLoop R (watchUrl videoId) 3 w = (Inr (Some info), w1)"
    by (cases "retryLoop R (watchUrl videoId) 3 w") auto
  moreover from valid have "videoId \<noteq> []" by (auto simp: validateVideoId_def)
  ultimately show "fst (download_mp3_index R videoId w) =
              \<lparr>status = 400,
               headers =
                 [(''Content-Type'', js ''audio/mpeg''),
                  (''Content-Disposition'',
                   js ''attachment; filename='' @ [34]
                     @ sanitizeFilename_index (title (videoDetails info)) @ js ''.mp3'' @ [34]),
                  (''Access-Control-Allow-Origin'', js ''*'')],
               body = ErrorBody (js ''No audio formats available for this video'') None\<rparr>"
    using valid none
      setHeaders_download_index[of "sanitizeFilename_index (title (videoDetails info))"]
    by (simp add: download_mp3_index_def Let_def noAudio_def sendJson_def setHeaders_def
        res0_def attachment_def)
qed


lemma retryLoop_three: "retryLoop R u 3 w = retryLoop R u (Suc (Suc (Suc 0))) w"
  by (simp only: numeral_3_eq_3)

text \<open>
  C10 for a video whose metadata lists a video-only format and no audio-only one; the
  title \<open>Artist: Song (Live) #1!\<close> gives the file names \<open>artist_song_live_1.mp3\<close> and
  \<open>artist__song__live___1_.mp3\<close>.
\<close>

theorem no_audio_error_carries_download_headers_witness:
  "validateVideoId (js ''dQw4w9WgXcQ'')
   \<and> formats silentInfo \<noteq> []
   \<and> filterFormats (formats silentInfo) AudioOnly = []
   \<and> fst (getCachedVideoInfo alwaysSilent (watchUrl (js ''dQw4w9WgXcQ'')) (js ''dQw4w9WgXcQ'')
        world0) = Inr silentInfo
   \<and> fst (retryLoop alwaysSilent (watchUrl (js ''dQw4w9WgXcQ'')) 3 world0) = Inr (Some silentInfo)
   \<and> fst (download_mp3 alwaysSilent (js ''dQw4w9WgXcQ'') None world0) =
        \<lparr>status = 400,
         headers =
           [(''Content-Type'', js ''audio/mpeg''),
            (''Content-Disposition'',
             js ''attachment; filename='' @ [34] @ js ''artist_song_live_1.mp3'' @ [34]),
            (''Access-Control-Allow-Origin'', js ''*''),
            (''Cache-Control'', js ''no-cache''),
            (''Connection'', js ''keep-alive'')],
         body = ErrorBody (js ''No audio formats available'') None\<rparr>
   \<and> fst (download_mp3_index alwaysSilent (js ''dQw4w9WgXcQ'') world0) =
        \<lparr>status = 400,
         headers =
           [(''Content-Type'', js ''audio/mpeg''),
            (''Content-Disposition'',
             js ''attachment; filename='' @ [34] @ js ''artist__song__live___1_.mp3'' @ [34]),
            (''Access-Control-Allow-Origin'', js ''*'')],
         body = ErrorBody (js ''No audio formats available for this video'') None\<rparr>"
proof -
  let ?k = "js ''dQw4w9WgXcQ''"
  have some: "formats silentInfo \<noteq> []" by (simp add: silentInfo_def)
  have none: "filterFormats (formats silentInfo) AudioOnly = []"
    by (simp add: silentInfo_def filterFormats_def sampleFormat_def)
  have g: "fst (getCachedVideoInfo alwaysSilent (watchUrl ?k) ?k world0) = Inr silentInfo"
    by (simp add: getCachedVideoInfo_def lookupVideoInfo_def Let_def requestInfo_def
        resumeVideoInfo_def alwaysSilent_def world0_def mapGet_def logEvent_def)
  have l: "fst (retryLoop alwaysSilent (watchUrl ?k) 3 world0) = Inr (Some silentInfo)"
    by (simp add: retryLoop_three getInfo_def requestInfo_def alwaysSilent_def)
  have t: "title (videoDetails silentInfo) = js ''Artist: Song (Live) #1!''"
    by (simp add: silentInfo_def sampleDetails_def)
  have n1: "sanitizeFilename (js ''Artist: Song (Live) #1!'') @ js ''.mp3'' @ [34]
      = js ''artist_song_live_1.mp3'' @ [34]"
    by (simp add: sanitizeFilename_example) (simp add: js_def)
  have n2: "sanitizeFilename_index (js ''Artist: Song (Live) #1!'') @ js ''.mp3'' @ [34]
      = js ''artist__song__live___1_.mp3'' @ [34]"
    by (simp add: sanitizeFilename_index_example) (simp add: js_def)
  note h = no_audio_error_carries_download_headers[where R = alwaysSilent and w = world0
      and bitrateQuery = None, OF valid_sample_id none]
  from h[THEN conjunct1, rule_format, OF g]
  have a: "fst (download_mp3 alwaysSilent ?k None world0) =
        \<lparr>status = 400,
         headers =
           [(''Content-Type'', js ''audio/mpeg''),
            (''Content-Disposition'',
             js ''attachment; filename='' @ [34] @ js ''artist_song_live_1.mp3'' @ [34]),
            (''Access-Control-Allow-Origin'', js ''*''),
            (''Cache-Control'', js ''no-cache''),
            (''Connection'', js ''keep-alive'')],
         body = ErrorBody (js ''No audio formats available'') None\<rparr>"
    by (simp only: t n1)
  from h[THEN conjunct2, rule_format, OF l]
  have b: "fst (download_mp3_index alwaysSilent ?k world0) =
        \<lparr>status = 400,
         headers =
           [(''Content-Type'', js ''audio/mpeg''),
            (''Content-Disposition'',
             js ''attachment; filename='' @ [34] @ js ''artist__song__live___1_.mp3'' @ [34]),
            (''Access-Control-Allow-Origin'', js ''*'')],
         body = ErrorBody (js ''No audio formats available for this video'') None\<rparr>"
    by (simp only: t n2)
  from valid_sample_id some none g l a b show ?thesis
    by (intro conjI) (simp_all only: simp_thms)
qed

subsection \<open>The failures of a batch\<close>

lemmas handler_defs = validateVideoId_def js_def cls sanitizeFilename_def filterFormats_def
  mapGet_def mapDelete_def mapHas_def CACHE_TTL_def logEvent_def elapse_def
  watchUrl_def requestInfo_def getInfo_def lookupVideoInfo_def evictOldest_def storeVideoInfo_def
  resumeVideoInfo_def getCachedVideoInfo_def res0_def sendJson_def invalidId_def
  startItem_def queuedItem_def arrivals_def jsIndex_def failedOf_def successfulOf_def
  batch_download_def Let_def

lemma map_fst_of_zip:
  "length xs = length ys \<Longrightarrow> map (\<lambda>x. f (fst x)) (zip xs ys) = map f xs"
  by (induction xs ys rule: list_induct2) simp_all

lemma failedOf_identifiers:
  "map failureId (failedOf videoIds results) =
     map (jsIndex videoIds) [0..<length (filter isRejected results)]"
  by (simp add: failedOf_def enumerate_eq_zip split_def comp_def map_fst_of_zip)

text \<open>
  Claim C1 fails on the code. For the batch \<open>["dQw4w9WgXcQ", "bad"]\<close> the first item
  succeeds and the second is rejected, and the one failure record pairs the reason of the
  second item with the identifier of the first: \<open>failedOf\<close> reads \<open>videoIds\<close> at the
  position in the filtered list (\<open>failedOf_identifiers\<close>: the records name the first
  identifiers of the request, as many as there are failures).
\<close>

theorem batch_failure_names_wrong_identifier:
  "body (fst (batch_download alwaysOk noUuid (Some [js ''dQw4w9WgXcQ'', js ''bad'']) world0)) =
     BatchBody
       [Queued (js ''dQw4w9WgXcQ'') (js ''Artist: Song (Live) #1!'')
          (js ''artist_song_live_1_0f8fad5b.mp3'')
          (js ''/downloads/artist_song_live_1_0f8fad5b.mp3'')]
       [Failure (Some (js ''dQw4w9WgXcQ'')) (js ''Invalid video ID: bad'')] 2"
  by (simp add: handler_defs sample_defs enumerate_eq_zip)

section \<open>Invalid identifiers\<close>

subsection \<open>What a handler adds to the trace\<close>

lemma newEvents_append: "trace w' = trace w @ xs \<Longrightarrow> newEvents w w' = xs"
  by (simp add: newEvents_def)

lemma newEvents_same [simp]: "newEvents w w = []"
  by (simp add: newEvents_def)

lemma urlId_watchUrl [simp]: "urlId (watchUrl k) = k"
  by (simp add: urlId_def watchUrl_def)

lemma itemEvent_not_for:
  "\<not> validateVideoId v \<Longrightarrow> itemEvent e \<Longrightarrow> \<not> requestsFor v e"
  by (cases e) (auto simp: requestsFor_def)

lemma trace_store:
  "\<exists>xs. trace (storeVideoInfo k info w) = trace w @ CacheSet k # xs
      \<and> list_all itemEvent xs \<and> \<not> list_ex isAttempt xs"
  by (cases "videoInfoCache w")
    (auto simp: storeVideoInfo_def evictOldest_def logEvent_def isAttempt_def split: list.splits)

lemma trace_resume:
  "validateVideoId k \<Longrightarrow>
   \<exists>xs. trace (snd (resumeVideoInfo k r w)) = trace w @ xs
      \<and> list_all itemEvent xs \<and> \<not> list_ex isAttempt xs"
proof (cases r)
  case (Inl e)
  then show ?thesis by (simp add: resumeVideoInfo_def)
next
  case (Inr info)
  assume v: "validateVideoId k"
  from trace_store[of k info w] obtain xs where
    "trace (storeVideoInfo k info w) = trace w @ CacheSet k # xs" "list_all itemEvent xs"
    "\<not> list_ex isAttempt xs" by blast
  with v Inr show ?thesis
    by (intro exI[of _ "CacheSet k # xs"]) (simp add: resumeVideoInfo_def isAttempt_def)
qed

lemma trace_lookup:
  "validateVideoId k \<Longrightarrow>
   \<exists>xs. trace (snd (lookupVideoInfo R (watchUrl k) k w)) = trace w @ xs
      \<and> list_all itemEvent xs \<and> resolves xs \<le> 1 \<and> \<not> list_ex isSleep xs
      \<and> videoInfoCache (snd (lookupVideoInfo R (watchUrl k) k w)) = videoInfoCache w"
  by (auto simp: lookupVideoInfo_def Let_def requestInfo_def logEvent_def
      split: option.splits prod.splits)


lemma trace_startItem:
  "\<exists>xs. trace (snd (startItem R k w)) = trace w @ xs
      \<and> list_all itemEvent xs \<and> resolves xs \<le> 1 \<and> \<not> list_ex isSleep xs"
proof (cases "validateVideoId k")
  case True
  from trace_lookup[OF True, of R w] obtain xs where
    "trace (snd (lookupVideoInfo R (watchUrl k) k w)) = trace w @ xs" "list_all itemEvent xs"
    "resolves xs \<le> 1" "\<not> list_ex isSleep xs" by blast
  with True show ?thesis
    by (intro exI[of _ xs]) (simp add: startItem_def case_prod_beta)
next
  case False
  then show ?thesis by (simp add: startItem_def)
qed

lemma startItem_invalid:
  "\<not> validateVideoId k \<Longrightarrow> startItem R k w = (Threw (js ''Invalid video ID: '' @ k), w)"
  by (simp add: startItem_def)

lemma startItem_valid:
  "validateVideoId k \<Longrightarrow> \<exists>l. fst (startItem R k w) = Looked l"
  by (simp add: startItem_def case_prod_beta)

lemma trace_startItems:
  "\<exists>xs. trace (snd (startItems R ks w)) = trace w @ xs
      \<and> list_all itemEvent xs \<and> resolves xs \<le> length ks \<and> \<not> list_ex isSleep xs"
proof (induction ks arbitrary: w)
  case Nil
  then show ?case by simp
next
  case (Cons k ks)
  obtain s w1 where s: "startItem R k w = (s, w1)" by (cases "startItem R k w")
  obtain ss w2 where ss: "startItems R ks w1 = (ss, w2)" by (cases "startItems R ks w1")
  from trace_startItem[of R k w] s obtain xs where
    xs: "trace w1 = trace w @ xs" "list_all itemEvent xs" "resolves xs \<le> 1"
      "\<not> list_ex isSleep xs" by auto
  from Cons.IH[of w1] ss obtain ys where
    ys: "trace w2 = trace w1 @ ys" "list_all itemEvent ys" "resolves ys \<le> length ks"
      "\<not> list_ex isSleep ys" by auto
  from xs ys s ss show ?case
    by (intro exI[of _ "xs @ ys"]) simp
qed

lemma length_startItems: "length (fst (startItems R ks w)) = length ks"
  by (induction ks arbitrary: w) (simp_all add: case_prod_beta)

text \<open>Only items that passed the test are pending.\<close>

lemma pending_valid:
  "(dt, v, r) \<in> set (pendingOf ks (fst (startItems R ks w))) \<Longrightarrow> validateVideoId v"
proof (induction ks arbitrary: w)
  case Nil
  then show ?case by simp
next
  case (Cons k ks)
  obtain s w1 where s: "startItem R k w = (s, w1)" by (cases "startItem R k w")
  obtain ss w2 where ss: "startItems R ks w1 = (ss, w2)" by (cases "startItems R ks w1")
  from Cons.IH[of w1] ss have ih: "(dt, v, r) \<in> set (pendingOf ks ss) \<Longrightarrow> validateVideoId v"
    by simp
  show ?case
  proof (cases "validateVideoId k")
    case True
    from Cons.prems s ss have "(dt, v, r) \<in> set (pendingOf (k # ks) (s # ss))" by simp
    then have "v = k \<or> (dt, v, r) \<in> set (pendingOf ks ss)"
      by (cases "(k # ks, s # ss)" rule: pendingOf.cases) auto
    with True ih show ?thesis by blast
  next
    case False
    with s have "s = Threw (js ''Invalid video ID: '' @ k)" by (simp add: startItem_invalid)
    with Cons.prems s ss have "(dt, v, r) \<in> set (pendingOf ks ss)" by simp
    with ih show ?thesis by blast
  qed
qed

lemma trace_deliver:
  "\<forall>a\<in>set as. validateVideoId (fst (snd a)) \<Longrightarrow>
   \<exists>xs. trace (deliver t0 as w) = trace w @ xs
      \<and> list_all itemEvent xs \<and> \<not> list_ex isAttempt xs"
proof (induction as arbitrary: w)
  case Nil
  then show ?case by simp
next
  case (Cons a as)
  obtain dt v r where a: "a = (dt, v, r)" by (cases a)
  let ?w1 = "snd (resumeVideoInfo v r (w\<lparr>now := t0 + dt\<rparr>))"
  from Cons.prems a have v: "validateVideoId v" by simp
  from trace_resume[OF v, of r "w\<lparr>now := t0 + dt\<rparr>"] obtain xs where
    xs: "trace ?w1 = trace w @ xs" "list_all itemEvent xs" "\<not> list_ex isAttempt xs" by auto
  from Cons.IH[of ?w1] Cons.prems obtain ys where
    ys: "trace (deliver t0 as ?w1) = trace ?w1 @ ys" "list_all itemEvent ys"
      "\<not> list_ex isAttempt ys" by auto
  from xs ys a show ?case
    by (intro exI[of _ "xs @ ys"]) simp
qed

subsection \<open>The results of a batch\<close>

lemma settleAll_invalid:
  "k \<in> set ks \<Longrightarrow> \<not> validateVideoId k \<Longrightarrow>
   Rejected (js ''Invalid video ID: '' @ k) \<in> set (settleAll uuidv4 i ks (fst (startItems R ks w)))"
proof (induction ks arbitrary: w i)
  case Nil
  then show ?case by simp
next
  case (Cons k' ks)
  obtain s w1 where s: "startItem R k' w = (s, w1)" by (cases "startItem R k' w")
  obtain ss w2 where ss: "startItems R ks w1 = (ss, w2)" by (cases "startItems R ks w1")
  show ?case
  proof (cases "k = k'")
    case True
    with Cons.prems s have "s = Threw (js ''Invalid video ID: '' @ k)"
      by (simp add: startItem_invalid)
    with True s ss show ?thesis by simp
  next
    case False
    with Cons.prems have "k \<in> set ks" by simp
    from Cons.IH[OF this Cons.prems(2), of "Suc i" w1] ss s show ?thesis by simp
  qed
qed

lemma failedOf_reasons:
  "map failureReason (failedOf videoIds results) = map reasonOf (filter isRejected results)"
proof -
  have "map (\<lambda>x. g (snd x)) (zip xs ys) = map g ys" if "length xs = length ys"
    for g :: "settled \<Rightarrow> jsstring" and xs :: "nat list" and ys
    using that by (induction xs ys rule: list_induct2) simp_all
  then show ?thesis
    by (simp add: failedOf_def enumerate_eq_zip split_def comp_def)
qed

lemma batch_accepts:
  "videoIds \<noteq> [] \<Longrightarrow> length videoIds \<le> 10 \<Longrightarrow>
   batch_download R uuidv4 (Some videoIds) w =
     (let ss = fst (startItems R videoIds w);
          w1 = snd (startItems R videoIds w);
          results = settleAll uuidv4 0 videoIds ss
      in (sendJson 200
            (BatchBody (successfulOf results) (failedOf videoIds results) (length videoIds))
            res0,
          deliver (now w) (arrivals videoIds ss) w1))"
  by (simp add: batch_download_def Let_def split: prod.splits)

lemma trace_batch:
  assumes "videoIds \<noteq> []" "length videoIds \<le> 10"
  shows "\<exists>xs. trace (snd (batch_download R uuidv4 (Some videoIds) w)) = trace w @ xs
      \<and> list_all itemEvent xs \<and> resolves xs \<le> length videoIds \<and> \<not> list_ex isSleep xs"
proof -
  let ?ss = "fst (startItems R videoIds w)"
  let ?w1 = "snd (startItems R videoIds w)"
  from trace_startItems[of R videoIds w] obtain xs where
    xs: "trace ?w1 = trace w @ xs" "list_all itemEvent xs" "resolves xs \<le> length videoIds"
      "\<not> list_ex isSleep xs" by blast
  have "\<forall>a\<in>set (arrivals videoIds ?ss). validateVideoId (fst (snd a))"
    using pending_valid[of _ _ _ videoIds R w] by (auto simp: arrivals_def)
  from trace_deliver[OF this, of "now w" ?w1] obtain ys where
    ys: "trace (deliver (now w) (arrivals videoIds ?ss) ?w1) = trace ?w1 @ ys"
      "list_all itemEvent ys" "\<not> list_ex isAttempt ys" by blast
  from ys(3) have "resolves ys = 0" "\<not> list_ex isSleep ys"
    by (auto simp: resolves_def isAttempt_def list_ex_iff filter_empty_conv)
  with xs ys show ?thesis
    by (intro exI[of _ "xs @ ys"]) (simp add: batch_accepts[OF assms] Let_def)
qed


lemma invalid_sample_id: "\<not> validateVideoId (js ''bad'')"
  by (simp add: validateVideoId_def js_def)

text \<open>
  Claim C2, as stated, fails. The string \<open>bad\<close> is not an identifier, yet a batch that
  holds it is answered with status 200, and the info and formats handlers of
  \<open>src/index.js\<close>, which do not test the identifier, call the resolver for it and answer
  404 when it fails.
\<close>

theorem invalid_identifier_reaches_resolver_counterexample:
  "\<not> validateVideoId (js ''bad'')
   \<and> status (fst (batch_download alwaysOk noUuid (Some [js ''bad'']) world0)) = 200
   \<and> status (fst (video_info_index neverOk (js ''bad'') world0)) = 404
   \<and> trace (snd (video_info_index neverOk (js ''bad'') world0)) = [Resolve (watchUrl (js ''bad''))]
   \<and> trace (snd (formats_route_index neverOk (js ''bad'') world0)) = [Resolve (watchUrl (js ''bad''))]"
  by (simp add: invalid_sample_id batch_download_def startItem_def sendJson_def res0_def
      video_info_index_def formats_route_index_def getInfo_def requestInfo_def neverOk_def
      world0_def logEvent_def elapse_def Let_def)

text \<open>
  Claim C2, as amended. For every string that is not exactly 11 characters of
  \<open>[A-Za-z0-9_-]\<close>: the direct-link, download, info and formats handlers of the caching
  server and the two download handlers of the basic server answer 400 and leave the world
  as it was (no call of the resolver, no access to the cache, nothing else). A batch of 1
  to 10 identifiers that holds the string is answered with status 200, lists the failure
  \<open>Invalid video ID: ...\<close> for it, and no event of the batch looks the string up,
  stores it or resolves it. A batch of more than 10 identifiers is answered 400 as a
  whole, with no failure list, and leaves the world as it was.
\<close>

theorem invalid_identifier_rejected_without_access:
  assumes bad: "\<not> validateVideoId videoId"
  shows "status invalidId = 400
       \<and> direct_link lead R videoId w = (invalidId, w)
       \<and> download_mp3 R videoId bitrateQuery w = (invalidId, w)
       \<and> video_info R videoId w = (invalidId, w)
       \<and> formats_route R videoId w = (invalidId, w)
       \<and> status (fst (download_mp3_index R videoId w)) = 400
       \<and> snd (download_mp3_index R videoId w) = w
       \<and> status (fst (download_mp3_post_index R uuid conversion (Some videoId) w)) = 400
       \<and> snd (download_mp3_post_index R uuid conversion (Some videoId) w) = w
       \<and> (videoId \<in> set videoIds \<and> length videoIds \<le> 10 \<longrightarrow>
            status (fst (batch_download R uuids (Some videoIds) w)) = 200
            \<and> js ''Invalid video ID: '' @ videoId
                \<in> set (map failureReason
                      (failedList (body (fst (batch_download R uuids (Some videoIds) w)))))
            \<and> list_all (\<lambda>e. \<not> requestsFor videoId e)
                (newEvents w (snd (batch_download R uuids (Some videoIds) w))))
       \<and> (length videoIds > 10 \<longrightarrow>
            batch_download R uuids (Some videoIds) w =
              (sendJson 400 (ErrorBody (js ''Maximum 10 videos per batch'') None) res0, w))"
proof -
  have a: "status invalidId = 400" by (simp add: invalidId_def sendJson_def res0_def)
  from bad have b: "direct_link lead R videoId w = (invalidId, w)"
    "download_mp3 R videoId bitrateQuery w = (invalidId, w)"
    "video_info R videoId w = (invalidId, w)"
    "formats_route R videoId w = (invalidId, w)"
    by (simp_all add: direct_link_def download_mp3_def video_info_def formats_route_def)
  from bad a have c: "status (fst (download_mp3_index R videoId w)) = 400"
    "snd (download_mp3_index R videoId w) = w"
    "status (fst (download_mp3_post_index R uuid conversion (Some videoId) w)) = 400"
    "snd (download_mp3_post_index R uuid conversion (Some videoId) w) = w"
    by (simp_all add: download_mp3_index_def download_mp3_post_index_def sendJson_def res0_def)
  have d: "status (fst (batch_download R uuids (Some videoIds) w)) = 200
            \<and> js ''Invalid video ID: '' @ videoId
                \<in> set (map failureReason
                      (failedList (body (fst (batch_download R uuids (Some videoIds) w)))))
            \<and> list_all (\<lambda>e. \<not> requestsFor videoId e)
                (newEvents w (snd (batch_download R uuids (Some videoIds) w)))"
    if mem: "videoId \<in> set videoIds" and len: "length videoIds \<le> 10"
  proof -
    from mem have ne: "videoIds \<noteq> []" by auto
    let ?results = "settleAll uuids 0 videoIds (fst (startItems R videoIds w))"
    note acc = batch_accepts[OF ne len, of R uuids w]
    have st: "status (fst (batch_download R uuids (Some videoIds) w)) = 200"
      by (simp add: acc Let_def sendJson_def res0_def)
    have "Rejected (js ''Invalid video ID: '' @ videoId) \<in> set (filter isRejected ?results)"
      using settleAll_invalid[OF mem bad, of uuids 0 R w] by simp
    then have "reasonOf (Rejected (js ''Invalid video ID: '' @ videoId))
        \<in> set (map reasonOf (filter isRejected ?results))"
      by (simp only: set_map) (rule imageI)
    then have fl: "js ''Invalid video ID: '' @ videoId
        \<in> set (map failureReason
              (failedList (body (fst (batch_download R uuids (Some videoIds) w)))))"
      by (simp add: acc Let_def sendJson_def res0_def failedOf_reasons)
    from trace_batch[OF ne len, of R uuids w] obtain xs where
      xs: "trace (snd (batch_download R uuids (Some videoIds) w)) = trace w @ xs"
        "list_all itemEvent xs" by blast
    from xs(2) bad have "list_all (\<lambda>e. \<not> requestsFor videoId e) xs"
      by (auto simp: list_all_iff dest: itemEvent_not_for)
    with xs(1) have ev: "list_all (\<lambda>e. \<not> requestsFor videoId e)
        (newEvents w (snd (batch_download R uuids (Some videoIds) w)))"
      by (simp add: newEvents_append)
    from st fl ev show ?thesis by blast
  qed
  have e: "batch_download R uuids (Some videoIds) w =
      (sendJson 400 (ErrorBody (js ''Maximum 10 videos per batch'') None) res0, w)"
    if "length videoIds > 10"
    using that by (auto simp: batch_download_def)
  from a b c d e show ?thesis by blast
qed

text \<open>
  C2 as amended, for the string \<open>bad\<close>: alone, in a batch after a valid identifier, and
  in a batch of eleven.
\<close>

theorem invalid_identifier_rejected_without_access_witness:
  "\<not> validateVideoId (js ''bad'')
   \<and> js ''bad'' \<in> set [js ''dQw4w9WgXcQ'', js ''bad'']
   \<and> length [js ''dQw4w9WgXcQ'', js ''bad''] \<le> 10
   \<and> video_info neverOk (js ''bad'') world0 = (invalidId, world0)
   \<and> status invalidId = 400
   \<and> snd (download_mp3_index neverOk (js ''bad'') world0) = world0
   \<and> status (fst (batch_download alwaysOk noUuid (Some [js ''dQw4w9WgXcQ'', js ''bad'']) world0))
       = 200
   \<and> js ''Invalid video ID: bad''
       \<in> set (map failureReason (failedList (body (fst (batch_download alwaysOk noUuid
            (Some [js ''dQw4w9WgXcQ'', js ''bad'']) world0)))))
   \<and> list_all (\<lambda>e. \<not> requestsFor (js ''bad'') e)
        (newEvents world0 (snd (batch_download alwaysOk noUuid
            (Some [js ''dQw4w9WgXcQ'', js ''bad'']) world0)))
   \<and> length (replicate 11 (js ''bad'')) > 10
   \<and> batch_download alwaysOk noUuid (Some (replicate 11 (js ''bad''))) world0 =
        (sendJson 400 (ErrorBody (js ''Maximum 10 videos per batch'') None) res0, world0)"
proof -
  have mem: "js ''bad'' \<in> set [js ''dQw4w9WgXcQ'', js ''bad''] \<and>
      length [js ''dQw4w9WgXcQ'', js ''bad''] \<le> 10"
    by simp
  have m: "js ''Invalid video ID: '' @ js ''bad'' = js ''Invalid video ID: bad''"
    by (simp add: js_def)
  have l11: "length (replicate 11 (js ''bad'')) > 10" by simp
  note t = invalid_identifier_rejected_without_access[OF invalid_sample_id,
      where videoIds = "[js ''dQw4w9WgXcQ'', js ''bad'']" and w = world0]
  from t[where R = neverOk] have a: "video_info neverOk (js ''bad'') world0 = (invalidId, world0)"
    "status invalidId = 400" "snd (download_mp3_index neverOk (js ''bad'') world0) = world0"
    by blast+
  from t[where R = alwaysOk and uuids = noUuid] mem
  have b: "status (fst (batch_download alwaysOk noUuid (Some [js ''dQw4w9WgXcQ'', js ''bad''])
        world0)) = 200"
    "js ''Invalid video ID: '' @ js ''bad''
       \<in> set (map failureReason (failedList (body (fst (batch_download alwaysOk noUuid
            (Some [js ''dQw4w9WgXcQ'', js ''bad'']) world0)))))"
    "list_all (\<lambda>e. \<not> requestsFor (js ''bad'') e)
        (newEvents world0 (snd (batch_download alwaysOk noUuid
            (Some [js ''dQw4w9WgXcQ'', js ''bad'']) world0)))"
    by blast+
  from invalid_identifier_rejected_without_access[OF invalid_sample_id,
      where videoIds = "replicate 11 (js ''bad'')" and w = world0 and R = alwaysOk
        and uuids = noUuid] l11
  have c: "batch_download alwaysOk noUuid (Some (replicate 11 (js ''bad''))) world0 =
        (sendJson 400 (ErrorBody (js ''Maximum 10 videos per batch'') None) res0, world0)"
    by blast
  from invalid_sample_id mem a b l11 c show ?thesis by (simp only: m) blast
qed

section \<open>Attempts and retries\<close>

subsection \<open>Attempts\<close>


lemma isAttempt_simps [simp]:
  "isAttempt (Resolve u)" "isAttempt (Sleep n)" "\<not> isAttempt (CacheGet k)"
  "\<not> isAttempt (CacheSet k)" "\<not> isAttempt (CacheDelete k)" "\<not> isAttempt (CacheHas k)"
  "\<not> isAttempt (OpenStream u)"
  by (simp_all add: isAttempt_def)


lemma getInfo_eq:
  "getInfo R u w =
     (snd (R (resolves (trace w)) u),
      w\<lparr>trace := trace w @ [Resolve u], now := now w + fst (R (resolves (trace w)) u)\<rparr>)"
  by (simp add: getInfo_def requestInfo_def logEvent_def elapse_def case_prod_beta)








lemma freshEntry_logEvent [simp]: "freshEntry (logEvent e w) k = freshEntry w k"
  by (simp add: freshEntry_def logEvent_def split: option.splits)

lemma awaited_logEvent [simp]: "awaited (logEvent e w) ks = awaited w ks"
  by (simp add: awaited_def)






















section \<open>The cache stays well-formed\<close>

lemma world0_ok: "cacheOk world0"
  by (simp add: cacheOk_def world0_def mapKeys_def)

lemma cacheOk_cong: "videoInfoCache w' = videoInfoCache w \<Longrightarrow> cacheOk w' = cacheOk w"
  by (simp add: cacheOk_def)

lemma lookup_cache [simp]:
  "videoInfoCache (snd (lookupVideoInfo R u k w)) = videoInfoCache w"
  by (simp add: lookupVideoInfo_def Let_def requestInfo_def logEvent_def case_prod_beta
      split: option.splits)

lemma startItems_cache [simp]: "videoInfoCache (snd (startItems R ks w)) = videoInfoCache w"
  by (induction ks arbitrary: w) (simp_all add: startItem_def case_prod_beta)

lemma deliver_cacheOk: "cacheOk w \<Longrightarrow> cacheOk (deliver t0 as w)"
proof (induction as arbitrary: w)
  case Nil
  then show ?case by simp
next
  case (Cons a as)
  obtain dt v r where a: "a = (dt, v, r)" by (cases a)
  from Cons.prems have "cacheOk (w\<lparr>now := t0 + dt\<rparr>)" by (simp add: cacheOk_def)
  then have "cacheOk (snd (resumeVideoInfo v r (w\<lparr>now := t0 + dt\<rparr>)))" by (rule resume_cacheOk)
  then show ?case unfolding a by (simp add: Cons.IH)
qed

lemma getInfo_cache [simp]: "videoInfoCache (snd (getInfo R u w)) = videoInfoCache w"
  by (simp add: getInfo_eq)

lemma retryLoop_cache [simp]: "videoInfoCache (snd (retryLoop R u n w)) = videoInfoCache w"
proof (induction n arbitrary: w)
  case 0
  then show ?case by simp
next
  case (Suc n)
  show ?case
  proof (cases "snd (R (resolves (trace w)) u)")
    case (Inl e)
    then show ?thesis by (simp add: getInfo_eq Suc.IH logEvent_def elapse_def)
  next
    case (Inr info)
    then show ?thesis by (simp add: getInfo_eq)
  qed
qed

text \<open>Every handler keeps the cache well-formed.\<close>

lemma handlers_keep_cacheOk:
  assumes ok: "cacheOk w"
  shows "cacheOk (snd (direct_link lead R k w))" "cacheOk (snd (download_mp3 R k q w))"
    "cacheOk (snd (video_info R k w))" "cacheOk (snd (formats_route R k w))"
    "cacheOk (snd (batch_download R uuidv4 ks w))"
    "cacheOk (snd (download_mp3_index R k w))"
    "cacheOk (snd (download_mp3_post_index R uuid conversion b w))"
    "cacheOk (snd (video_info_index R k w))" "cacheOk (snd (formats_route_index R k w))"
proof -
  note g = getCached_cacheOk[OF ok, of R "watchUrl k" k]
  from ok g show "cacheOk (snd (direct_link lead R k w))"
    by (cases "getCachedVideoInfo R (watchUrl k) k w")
      (auto simp: direct_link_def Let_def split: sum.splits option.splits)
  from ok g show "cacheOk (snd (download_mp3 R k q w))"
    by (cases "getCachedVideoInfo R (watchUrl k) k w")
      (auto simp: download_mp3_def Let_def split: sum.splits)
  from ok g show "cacheOk (snd (video_info R k w))"
    by (cases "getCachedVideoInfo R (watchUrl k) k w")
      (auto simp: video_info_def split: sum.splits)
  from ok g show "cacheOk (snd (formats_route R k w))"
    by (cases "getCachedVideoInfo R (watchUrl k) k w")
      (auto simp: formats_route_def Let_def split: sum.splits)
  show "cacheOk (snd (batch_download R uuidv4 ks w))"
  proof (cases ks)
    case None
    with ok show ?thesis by (simp add: batch_download_def)
  next
    case (Some videoIds)
    have "cacheOk (snd (startItems R videoIds w))"
      using ok by (simp add: cacheOk_def)
    then have "cacheOk (deliver t0 as (snd (startItems R videoIds w)))" for t0 as
      by (rule deliver_cacheOk)
    with ok Some show ?thesis
      by (simp add: batch_download_def Let_def case_prod_beta)
  qed
  have "cacheOk (snd (retryLoop R (watchUrl k) 3 w))"
    using ok by (simp add: cacheOk_def)
  with ok show "cacheOk (snd (download_mp3_index R k w))"
    by (cases "retryLoop R (watchUrl k) 3 w")
      (auto simp: download_mp3_index_def Let_def split: sum.splits option.splits)
  have "cacheOk (snd (getInfo R u w))" for u
    using ok by (simp add: cacheOk_def)
  with ok show "cacheOk (snd (download_mp3_post_index R uuid conversion b w))"
    "cacheOk (snd (video_info_index R k w))" "cacheOk (snd (formats_route_index R k w))"
    by (auto simp: download_mp3_post_index_def video_info_index_def formats_route_index_def
        Let_def getInfo_eq cacheOk_def logEvent_def split: sum.splits option.splits)
qed

end
